theory Spec2Isabelle
  imports Complex_Main "HOL-Library.Word"
begin

section \<open>Common vocabulary\<close>

text \<open>
  Every abnormal end of the C++ code is a value of \<open>error\<close>: a failed \<open>assert\<close>, a read or
  write outside an array, a dereference of a slot that holds no object, a division by zero,
  the \<open>std::out_of_range\<close> thrown by \<open>at\<close>, and a signed overflow. A function that can end
  abnormally returns \<open>error + 'a\<close>, with \<open>Inl\<close> for the error.
\<close>

datatype error =
    AssertionFailure
  | OutOfBounds
  | InvalidPointer
  | DivisionByZero
  | OutOfRange
  | SignedOverflow

text \<open>Sequencing of computations that can end abnormally.\<close>

definition ebind :: "error + 'a \<Rightarrow> ('a \<Rightarrow> error + 'b) \<Rightarrow> error + 'b" where
  "ebind m f = (case m of Inl e \<Rightarrow> Inl e | Inr v \<Rightarrow> f v)"

text \<open>
  A loop \<open>for (i in ns) a[i] = f(i)\<close> that fills an array in index order and stops at the
  first abnormal end.
\<close>

fun for_each :: "nat list \<Rightarrow> (nat \<Rightarrow> error + 'a) \<Rightarrow> error + 'a list" where
  "for_each [] f = Inr []"
| "for_each (i # rest) f = ebind (f i) (\<lambda>v. ebind (for_each rest f) (\<lambda>vs. Inr (v # vs)))"

text \<open>Reading \<open>xs[i]\<close> of a C array: outside the array the behaviour is undefined.\<close>

definition read_at :: "'a list \<Rightarrow> int \<Rightarrow> error + 'a" where
  "read_at xs i = (if 0 \<le> i \<and> i < int (length xs) then Inr (xs ! nat i) else Inl OutOfBounds)"

text \<open>The C++ \<open>/\<close> on integers truncates towards zero.\<close>

definition cpp_div :: "int \<Rightarrow> int \<Rightarrow> int" where
  "cpp_div x y = (if (x < 0) = (y < 0) then \<bar>x\<bar> div \<bar>y\<bar> else - (\<bar>x\<bar> div \<bar>y\<bar>))"

lemma cpp_div_pos: "0 \<le> x \<Longrightarrow> 0 < y \<Longrightarrow> cpp_div x y = x div y"
  by (simp add: cpp_div_def)

lemma ebind_Inr: "ebind m f = Inr y \<Longrightarrow> \<exists>v. m = Inr v \<and> f v = Inr y"
  by (cases m) (simp_all add: ebind_def)

lemma for_each_Inr:
  "for_each ns f = Inr vs \<Longrightarrow>
   length vs = length ns \<and> (\<forall>k<length ns. f (ns ! k) = Inr (vs ! k))"
proof (induction ns arbitrary: vs)
  case Nil
  then show ?case by simp
next
  case (Cons n ns)
  from Cons.prems obtain v where v: "f n = Inr v"
    and rest: "ebind (for_each ns f) (\<lambda>vs. Inr (v # vs)) = Inr vs"
    by (auto dest: ebind_Inr)
  from rest obtain ws where ws: "for_each ns f = Inr ws" and vs: "vs = v # ws"
    by (auto dest: ebind_Inr)
  from Cons.IH [OF ws] v vs show ?case
    by (auto simp: nth_Cons split: nat.splits)
qed

lemma for_each_upt:
  assumes "for_each [0..<N] f = Inr vs"
  shows "length vs = N" and "\<And>i. i < N \<Longrightarrow> f i = Inr (vs ! i)"
  using for_each_Inr [OF assms] by auto

lemma read_at_Inr: "read_at xs (int i) = Inr d \<Longrightarrow> i < length xs \<and> d = xs ! i"
  by (auto simp: read_at_def split: if_splits)

lemma cpp_div_one: "cpp_div x 1 = x"
  by (simp add: cpp_div_def)

lemma ceil_div_pos:
  fixes s d :: int
  assumes "0 < d"
  shows "(s - 1 + d) div d = \<lceil>real_of_int s / real_of_int d\<rceil>"
proof -
  define q r where "q = (s - 1 + d) div d" and "r = (s - 1 + d) mod d"
  have eq: "s - 1 + d = d * q + r"
    unfolding q_def r_def by (rule mult_div_mod_eq [symmetric])
  have r: "0 \<le> r" "r < d"
    using assms by (simp_all add: r_def)
  have "- s = d * (- q) + (d - r - 1)"
    using eq by (simp add: algebra_simps)
  moreover have "0 \<le> d - r - 1" "d - r - 1 < d"
    using r by simp_all
  ultimately have "(- s) div d = - q"
    by (metis int_div_pos_eq)
  then show ?thesis
    by (simp add: ceiling_divide_eq_div q_def)
qed

text \<open>Writing \<open>xs[i] = v\<close> into a C array.\<close>

definition write_at :: "'a list \<Rightarrow> int \<Rightarrow> 'a \<Rightarrow> error + 'a list" where
  "write_at xs i v = (if 0 \<le> i \<and> i < int (length xs) then Inr (xs[nat i := v]) else Inl OutOfBounds)"

text \<open>A loop over the indices \<open>ns\<close> that updates a state and stops at the first abnormal end.\<close>

fun for_fold :: "nat list \<Rightarrow> (nat \<Rightarrow> 's \<Rightarrow> error + 's) \<Rightarrow> 's \<Rightarrow> error + 's" where
  "for_fold [] f s = Inr s"
| "for_fold (i # rest) f s = ebind (f i s) (for_fold rest f)"

text \<open>\<open>for (i = 0; i < N; i++) dst[i] = src[pos(i)]\<close>\<close>

definition copy_loop :: "nat \<Rightarrow> 'a list \<Rightarrow> (nat \<Rightarrow> int) \<Rightarrow> 'a list \<Rightarrow> error + 'a list" where
  "copy_loop N src pos dst =
     for_fold [0..<N] (\<lambda>i a. ebind (read_at src (pos i)) (\<lambda>v. write_at a (int i) v)) dst"

definition assert_that :: "bool \<Rightarrow> error + unit" where
  "assert_that b = (if b then Inr () else Inl AssertionFailure)"

lemma assert_that_Inr: "assert_that b = Inr u \<Longrightarrow> b"
  by (simp add: assert_that_def split: if_splits)

lemma write_at_Inr:
  "write_at xs i v = Inr ys \<Longrightarrow> 0 \<le> i \<and> nat i < length xs \<and> ys = xs[nat i := v]"
  by (auto simp: write_at_def split: if_splits)

lemma for_fold_append:
  "for_fold (ns @ ms) f s = ebind (for_fold ns f s) (for_fold ms f)"
  by (induction ns arbitrary: s) (auto simp: ebind_def split: sum.splits)

lemma copy_loop_Suc:
  "copy_loop (Suc N) src pos dst =
     ebind (copy_loop N src pos dst) (\<lambda>a. ebind (read_at src (pos N)) (\<lambda>v. write_at a (int N) v))"
  by (simp add: copy_loop_def for_fold_append ebind_def split: sum.splits)

lemma copy_loop_Inr:
  "copy_loop N src pos dst = Inr a \<Longrightarrow>
   length a = length dst \<and> N \<le> length dst \<and>
   (\<forall>i<N. 0 \<le> pos i \<and> nat (pos i) < length src \<and> a ! i = src ! nat (pos i)) \<and>
   (\<forall>i. N \<le> i \<longrightarrow> a ! i = dst ! i)"
proof (induction N arbitrary: a)
  case 0
  then show ?case by (simp add: copy_loop_def)
next
  case (Suc N)
  from Suc.prems obtain b v where b: "copy_loop N src pos dst = Inr b"
    and v: "read_at src (pos N) = Inr v" and w: "write_at b (int N) v = Inr a"
    unfolding copy_loop_Suc by (auto dest!: ebind_Inr)
  from v have rv: "0 \<le> pos N" "nat (pos N) < length src" "v = src ! nat (pos N)"
    by (auto simp: read_at_def split: if_splits)
  from write_at_Inr [OF w] have wa: "N < length b" "a = b[N := v]"
    by auto
  from Suc.IH [OF b] wa rv show ?case
    by (auto simp: nth_list_update less_Suc_eq)
qed


text \<open>
  The operator kinds that the sources name. The enumeration itself is declared in a header
  that is not among the sources.
\<close>

datatype OperatorType =
    OP_INPUT | OP_WEIGHT | OP_NOOP | OP_CONV2D | OP_DROPOUT | OP_LINEAR | OP_BATCHMATMUL
  | OP_POOL2D | OP_SCALAR_MULTIPLY | OP_SCALAR_ADD | OP_SCALAR_SUB | OP_SCALAR_TRUE_DIV
  | OP_RELU | OP_IDENTITY | OP_SIGMOID | OP_TANH | OP_ELU | OP_FLAT | OP_SOFTMAX
  | OP_BATCHNORM | OP_CONCAT | OP_SPLIT | OP_EMBEDDING | OP_GROUP_BY | OP_CACHE
  | OP_AGGREGATE | OP_AGG_SPEC | OP_RESHAPE | OP_REVERSE | OP_TRANSPOSE | OP_EW_ADD
  | OP_EW_MUL | OP_EW_SUB | OP_EW_DIV | OP_EW_MAX | OP_EW_MIN | OP_REDUCE_SUM | OP_CAST
  | OP_EXP | OP_SIN | OP_COS | OP_POW | OP_MEAN | OP_GATHER | OP_GELU | OP_TOPK
  | OP_MULTIHEAD_ATTENTION | OP_LAYERNORM | OP_FUSED | OP_REPARTITION | OP_COMBINE
  | OP_REPLICATE | OP_REDUCTION | OP_FUSED_PARALLEL

section \<open>Parameter extraction: \<open>get_op_parameters\<close>\<close>

text \<open>
  \<open>get_op_parameters\<close> switches on the kind tag, casts the operator to the class of that
  kind and returns what the class's \<open>get_params\<close> returns. The \<open>get_params\<close> methods are
  not among the sources, so the value they return is kept opaque: an alternative of
  \<open>OperatorParameters\<close> names the class whose \<open>get_params\<close> ran and carries the operator it
  ran on.
\<close>

datatype 'op OperatorParameters =
    LinearParams 'op
  | Conv2DParams 'op
  | ElementBinaryParams 'op
  | ElementUnaryParams 'op
  | ConcatParams 'op
  | Pool2DParams 'op
  | CastParams 'op
  | DropoutParams 'op
  | EmbeddingParams 'op
  | FlatParams 'op
  | GatherParams 'op
  | MultiHeadAttentionParams 'op
  | LayerNormParams 'op
  | ReduceParams 'op
  | ReshapeParams 'op
  | SoftmaxParams 'op
  | RepartitionParams 'op
  | ReplicateParams 'op
  | ReductionParams 'op
  | CombineParams 'op
  | FusedParallelOpParams 'op
  | TransposeParams 'op
  | BatchMatmulParams 'op
  | SplitParams 'op
  | TopKParams 'op
  | Group_byParams 'op
  | AggregateParams 'op
  | AggregateSpecParams 'op

text \<open>The first argument reads the field \<open>op->op_type\<close>.\<close>

definition get_op_parameters ::
  "('op \<Rightarrow> OperatorType) \<Rightarrow> 'op \<Rightarrow> 'op OperatorParameters option" where
  "get_op_parameters op_type_of op =
     (case op_type_of op of
        OP_LINEAR \<Rightarrow> Some (LinearParams op)
      | OP_CONV2D \<Rightarrow> Some (Conv2DParams op)
      | OP_EW_ADD \<Rightarrow> Some (ElementBinaryParams op)
      | OP_EW_SUB \<Rightarrow> Some (ElementBinaryParams op)
      | OP_EW_MUL \<Rightarrow> Some (ElementBinaryParams op)
      | OP_EW_DIV \<Rightarrow> Some (ElementBinaryParams op)
      | OP_EW_MAX \<Rightarrow> Some (ElementBinaryParams op)
      | OP_EW_MIN \<Rightarrow> Some (ElementBinaryParams op)
      | OP_EXP \<Rightarrow> Some (ElementUnaryParams op)
      | OP_SIN \<Rightarrow> Some (ElementUnaryParams op)
      | OP_COS \<Rightarrow> Some (ElementUnaryParams op)
      | OP_SCALAR_MULTIPLY \<Rightarrow> Some (ElementUnaryParams op)
      | OP_SCALAR_ADD \<Rightarrow> Some (ElementUnaryParams op)
      | OP_SCALAR_SUB \<Rightarrow> Some (ElementUnaryParams op)
      | OP_SCALAR_TRUE_DIV \<Rightarrow> Some (ElementUnaryParams op)
      | OP_RELU \<Rightarrow> Some (ElementUnaryParams op)
      | OP_SIGMOID \<Rightarrow> Some (ElementUnaryParams op)
      | OP_TANH \<Rightarrow> Some (ElementUnaryParams op)
      | OP_IDENTITY \<Rightarrow> Some (ElementUnaryParams op)
      | OP_GELU \<Rightarrow> Some (ElementUnaryParams op)
      | OP_ELU \<Rightarrow> Some (ElementUnaryParams op)
      | OP_CONCAT \<Rightarrow> Some (ConcatParams op)
      | OP_POOL2D \<Rightarrow> Some (Pool2DParams op)
      | OP_CAST \<Rightarrow> Some (CastParams op)
      | OP_DROPOUT \<Rightarrow> Some (DropoutParams op)
      | OP_EMBEDDING \<Rightarrow> Some (EmbeddingParams op)
      | OP_FLAT \<Rightarrow> Some (FlatParams op)
      | OP_GATHER \<Rightarrow> Some (GatherParams op)
      | OP_MULTIHEAD_ATTENTION \<Rightarrow> Some (MultiHeadAttentionParams op)
      | OP_LAYERNORM \<Rightarrow> Some (LayerNormParams op)
      | OP_REDUCE_SUM \<Rightarrow> Some (ReduceParams op)
      | OP_RESHAPE \<Rightarrow> Some (ReshapeParams op)
      | OP_SOFTMAX \<Rightarrow> Some (SoftmaxParams op)
      | OP_REPARTITION \<Rightarrow> Some (RepartitionParams op)
      | OP_REPLICATE \<Rightarrow> Some (ReplicateParams op)
      | OP_REDUCTION \<Rightarrow> Some (ReductionParams op)
      | OP_COMBINE \<Rightarrow> Some (CombineParams op)
      | OP_FUSED_PARALLEL \<Rightarrow> Some (FusedParallelOpParams op)
      | OP_TRANSPOSE \<Rightarrow> Some (TransposeParams op)
      | OP_BATCHMATMUL \<Rightarrow> Some (BatchMatmulParams op)
      | OP_SPLIT \<Rightarrow> Some (SplitParams op)
      | OP_TOPK \<Rightarrow> Some (TopKParams op)
      | OP_GROUP_BY \<Rightarrow> Some (Group_byParams op)
      | OP_AGGREGATE \<Rightarrow> Some (AggregateParams op)
      | OP_AGG_SPEC \<Rightarrow> Some (AggregateSpecParams op)
      | _ \<Rightarrow> None)"

text \<open>
  The kinds that the claim lists as handled: linear, conv2d, the six element-binary kinds,
  the thirteen element-unary kinds of the data model (exp, sin, cos, the four scalar kinds,
  relu, sigmoid, tanh, identity, gelu, elu), and the rest of the list.
\<close>

definition dispatch_list :: "OperatorType list" where
  "dispatch_list =
     [OP_LINEAR, OP_CONV2D,
      OP_EW_ADD, OP_EW_SUB, OP_EW_MUL, OP_EW_DIV, OP_EW_MAX, OP_EW_MIN,
      OP_EXP, OP_SIN, OP_COS, OP_SCALAR_MULTIPLY, OP_SCALAR_ADD, OP_SCALAR_SUB,
      OP_SCALAR_TRUE_DIV, OP_RELU, OP_SIGMOID, OP_TANH, OP_IDENTITY, OP_GELU, OP_ELU,
      OP_CONCAT, OP_POOL2D, OP_CAST, OP_DROPOUT, OP_EMBEDDING, OP_FLAT, OP_GATHER,
      OP_MULTIHEAD_ATTENTION, OP_LAYERNORM, OP_REDUCE_SUM, OP_RESHAPE, OP_SOFTMAX,
      OP_REPARTITION, OP_REPLICATE, OP_REDUCTION, OP_COMBINE, OP_FUSED_PARALLEL,
      OP_TRANSPOSE, OP_BATCHMATMUL, OP_SPLIT, OP_TOPK, OP_GROUP_BY, OP_AGGREGATE,
      OP_AGG_SPEC]"

definition omitted_kinds :: "OperatorType list" where
  "omitted_kinds = [OP_NOOP, OP_MEAN, OP_CACHE, OP_REVERSE, OP_BATCHNORM]"


text \<open>
  C9: \<open>get_op_parameters\<close> returns \<open>nullopt\<close> for every operator whose kind is noop, mean,
  cache, reverse or batchnorm, and for every kind outside its dispatch list; it returns an
  attribute record for every operator whose kind is in the dispatch list.
\<close>

theorem get_op_parameters_dispatch:
  "(op_type_of op \<in> set omitted_kinds \<longrightarrow> get_op_parameters op_type_of op = None) \<and>
   (op_type_of op \<notin> set dispatch_list \<longrightarrow> get_op_parameters op_type_of op = None) \<and>
   (op_type_of op \<in> set dispatch_list \<longrightarrow> (\<exists>p. get_op_parameters op_type_of op = Some p))"
  by (cases "op_type_of op")
     (simp_all add: get_op_parameters_def dispatch_list_def omitted_kinds_def)

theorem get_op_parameters_dispatch_witness:
  "OP_NOOP \<in> set omitted_kinds \<and> get_op_parameters id OP_NOOP = None \<and>
   OP_POW \<notin> set dispatch_list \<and> get_op_parameters id OP_POW = None \<and>
   OP_LINEAR \<in> set dispatch_list \<and> (\<exists>p. get_op_parameters id OP_LINEAR = Some p)"
proof -
  have a: "OP_NOOP \<in> set omitted_kinds"
    by (simp add: omitted_kinds_def)
  have b: "OP_POW \<notin> set dispatch_list"
    by (simp add: dispatch_list_def)
  have c: "OP_LINEAR \<in> set dispatch_list"
    by (simp add: dispatch_list_def)
  show ?thesis
    using a b c
      get_op_parameters_dispatch [of id OP_NOOP]
      get_op_parameters_dispatch [of id OP_POW]
      get_op_parameters_dispatch [of id OP_LINEAR]
    by simp
qed

section \<open>Parallel tensors\<close>

text \<open>
  An operator is known by its address (\<open>Op *\<close>), a region and a partition by the handle the
  task runtime gave out. The \<open>int\<close> fields of the C++ structures hold 32-bit values; they are
  integers here, and an operation that leaves the 32-bit range is written as the abnormal end
  \<open>SignedOverflow\<close> where the code has one. \<open>dims\<close> is the whole array
  \<open>ParallelDim dims[MAX_TENSOR_DIM]\<close>, of which the first \<open>num_dims\<close> entries are in use.
\<close>

text \<open>\<open>size_t\<close> counters and guids are 64-bit words: \<open>++\<close> wraps around.\<close>

type_synonym size_t = "64 word"

type_synonym op_ptr = nat

type_synonym LogicalRegion = nat

type_synonym MachineView = "int list"

type_synonym Point = "int list"

datatype DataType = DT_HALF | DT_FLOAT | DT_DOUBLE | DT_INT32 | DT_INT64 | DT_NONE

datatype CompMode = COMP_MODE_TRAINING | COMP_MODE_INFERENCE

record Rect =
  lo :: Point
  hi :: Point

record IndexPartition =
  parent :: Rect
  color_space :: Rect
  transform :: "int list list"
  extent :: Rect

record ParallelDim =
  size_dim :: int
  degree :: int
  parallel_idx :: int
  is_replica_dim :: bool

record ParallelTensorBase =
  parallel_tensor_guid :: "64 word"
  num_dims :: int
  dims :: "ParallelDim list"
  data_type :: DataType
  owner_op :: "op_ptr option"
  owner_idx :: int
  create_gradients :: bool
  region :: LogicalRegion
  region_grad :: LogicalRegion
  part :: "(LogicalRegion \<times> IndexPartition) option"
  part_grad :: "(LogicalRegion \<times> IndexPartition) option"
  machine_view :: MachineView

section \<open>The region mapper\<close>

text \<open>
  The task runtime is an external collaborator. The two questions the mapper asks it about a
  partition are parameters of the model; everything else the runtime does here is handing out
  handles, which are drawn from a counter.
\<close>

record LegionRuntime =
  is_index_partition_disjoint :: "IndexPartition \<Rightarrow> bool"
  is_index_partition_complete :: "IndexPartition \<Rightarrow> bool"

definition allocate_field :: "DataType \<Rightarrow> error + nat" where
  "allocate_field dt =
     (case dt of
        DT_HALF \<Rightarrow> Inr 2
      | DT_FLOAT \<Rightarrow> Inr 4
      | DT_DOUBLE \<Rightarrow> Inr 8
      | DT_INT32 \<Rightarrow> Inr 4
      | DT_INT64 \<Rightarrow> Inr 8
      | _ \<Rightarrow> Inl AssertionFailure)"

definition tile_hi :: "int \<Rightarrow> int \<Rightarrow> int \<Rightarrow> error + int" where
  "tile_hi rect_lo rect_hi nparts =
     (if nparts = 0 then Inl DivisionByZero
      else Inr (cpp_div (rect_hi - rect_lo + nparts) nparts - 1))"

text \<open>\<open>hi[i] = tensor->dims[i].size - 1\<close>, for \<open>i < NDIM\<close>\<close>

definition region_hi :: "nat \<Rightarrow> ParallelDim list \<Rightarrow> error + Point" where
  "region_hi NDIM dims_arr =
     for_each [0..<NDIM] (\<lambda>i.
       ebind (read_at dims_arr (int i)) (\<lambda>d.
         if size_dim d - 1 < - (2 ^ 31) then Inl SignedOverflow else Inr (size_dim d - 1)))"

text \<open>
  \<open>ext_hi[i] = (rect.hi[i] - rect.lo[i] + nparts) / nparts - 1\<close>, for \<open>i < NDIM\<close>, where
  \<open>nparts\<close> is \<open>dims[i].degree\<close>, or 1 for the aliased dimension (\<open>aliased_dim\<close> is
  \<open>None\<close> where the code has no such dimension).
\<close>

definition extent_hi :: "nat \<Rightarrow> ParallelDim list \<Rightarrow> int option \<Rightarrow> Rect \<Rightarrow> error + Point" where
  "extent_hi NDIM dims_arr aliased_dim rect =
     for_each [0..<NDIM] (\<lambda>i.
       ebind (read_at dims_arr (int i)) (\<lambda>d.
         let nparts = (if aliased_dim = Some (int i) then 1 else degree d) in
         tile_hi (lo rect ! i) (hi rect ! i) nparts))"

text \<open>
  \<open>transform[i][j] = extent.hi[i] - extent.lo[i] + 1\<close> if \<open>dims[i].parallel_idx == j\<close>
  (and \<open>i != aliased_dim\<close>), else 0, for \<open>i < NDIM\<close> and \<open>j < TDIM\<close>.
\<close>

definition transform_rows ::
  "nat \<Rightarrow> nat \<Rightarrow> ParallelDim list \<Rightarrow> int option \<Rightarrow> Rect \<Rightarrow> error + int list list" where
  "transform_rows NDIM TDIM dims_arr aliased_dim ext =
     for_each [0..<NDIM] (\<lambda>i.
       ebind (read_at dims_arr (int i)) (\<lambda>d.
         Inr (map (\<lambda>j. if parallel_idx d = int j \<and> aliased_dim \<noteq> Some (int i)
                        then hi ext ! i - lo ext ! i + 1 else 0) [0..<TDIM])))"

definition map_tensor_with_dim2 ::
  "nat \<Rightarrow> nat \<Rightarrow> LegionRuntime \<Rightarrow> CompMode \<Rightarrow> Rect \<Rightarrow> nat \<Rightarrow> ParallelTensorBase \<Rightarrow>
   op_ptr option \<Rightarrow> error + (ParallelTensorBase \<times> nat)" where
  "map_tensor_with_dim2 NDIM TDIM runtime computationMode part_is next_handle tensor parallel_op =
     (if owner_op tensor \<noteq> None \<and> \<not> (owner_op tensor = parallel_op \<or> parallel_op = None)
      then Inl AssertionFailure
      else
        let t0 = (if owner_op tensor = None
                  then tensor\<lparr>owner_op := parallel_op, owner_idx := - 1\<rparr> else tensor) in
        ebind (allocate_field (data_type t0)) (\<lambda>fs.
        ebind (region_hi NDIM (dims t0)) (\<lambda>hi_pt.
        let rect = \<lparr>lo = replicate NDIM 0, hi = hi_pt\<rparr>;
            grads = (create_gradients t0 \<and> computationMode = COMP_MODE_TRAINING);
            t1 = t0\<lparr>region := next_handle\<rparr>;
            t2 = (if grads then t1\<lparr>region_grad := next_handle + 1\<rparr> else t1);
            handle' = (if grads then next_handle + 2 else next_handle + 1)
        in
        if parallel_op = None then Inr (t2, handle')
        else
          ebind (extent_hi NDIM (dims t2) None rect) (\<lambda>ext_hi.
          let ext = \<lparr>lo = replicate NDIM 0, hi = ext_hi\<rparr> in
          ebind (transform_rows NDIM TDIM (dims t2) None ext) (\<lambda>tr.
          let ip = \<lparr>parent = rect, color_space = part_is, transform = tr, extent = ext\<rparr> in
          if \<not> is_index_partition_disjoint runtime ip then Inl AssertionFailure
          else if \<not> is_index_partition_complete runtime ip then Inl AssertionFailure
          else Inr (t2\<lparr>part := Some (region t2, ip),
                       part_grad := (if grads then Some (region_grad t2, ip) else part_grad t2)\<rparr>,
                    handle'))))))"

definition create_aliased_partition_with_dim2 ::
  "nat \<Rightarrow> nat \<Rightarrow> LegionRuntime \<Rightarrow> ParallelDim list \<Rightarrow> int \<Rightarrow> Rect \<Rightarrow> LogicalRegion \<Rightarrow> Rect \<Rightarrow>
   error + (LogicalRegion \<times> IndexPartition)" where
  "create_aliased_partition_with_dim2 NDIM TDIM runtime dims_arr aliased_dim part_is region_h rect =
     ebind (extent_hi NDIM dims_arr (Some aliased_dim) rect) (\<lambda>ext_hi.
     let ext = \<lparr>lo = replicate NDIM 0, hi = ext_hi\<rparr> in
     ebind (transform_rows NDIM TDIM dims_arr (Some aliased_dim) ext) (\<lambda>tr.
     let ip = \<lparr>parent = rect, color_space = part_is, transform = tr, extent = ext\<rparr> in
     if \<not> is_index_partition_complete runtime ip then Inl AssertionFailure
     else Inr (region_h, ip)))"

text \<open>
  What the two questions mean for a partition by restriction: the tile of a colour \<open>p\<close> is
  the extent rectangle moved by \<open>transform * p\<close>, cut to the parent rectangle. These
  definitions instantiate the runtime in the examples.
\<close>

definition points_of :: "Rect \<Rightarrow> Point list" where
  "points_of r = product_lists (map (\<lambda>(l, h). [l..h]) (zip (lo r) (hi r)))"

definition tile_of :: "IndexPartition \<Rightarrow> Point \<Rightarrow> Rect" where
  "tile_of ip p =
     (let off = map (\<lambda>row. sum_list (map (\<lambda>(a, b). a * b) (zip row p))) (transform ip)
      in \<lparr>lo = map (\<lambda>(a, l). a + l) (zip off (lo (extent ip))),
          hi = map (\<lambda>(a, h). a + h) (zip off (hi (extent ip)))\<rparr>)"

definition inside :: "Rect \<Rightarrow> Point \<Rightarrow> bool" where
  "inside r x = list_all (\<lambda>(xi, (l, h)). l \<le> xi \<and> xi \<le> h) (zip x (zip (lo r) (hi r)))"

definition restriction_disjoint :: "IndexPartition \<Rightarrow> bool" where
  "restriction_disjoint ip =
     list_all (\<lambda>x. length (filter (\<lambda>p. inside (tile_of ip p) x) (points_of (color_space ip))) \<le> 1)
       (points_of (parent ip))"

definition restriction_complete :: "IndexPartition \<Rightarrow> bool" where
  "restriction_complete ip =
     list_all (\<lambda>x. list_ex (\<lambda>p. inside (tile_of ip p) x) (points_of (color_space ip)))
       (points_of (parent ip))"

definition legion :: LegionRuntime where
  "legion = \<lparr>is_index_partition_disjoint = restriction_disjoint,
             is_index_partition_complete = restriction_complete\<rparr>"

definition t_s6 :: ParallelTensorBase where
  "t_s6 = \<lparr>parallel_tensor_guid = 1, num_dims = 2,
     dims = [\<lparr>size_dim = 16, degree = 4, parallel_idx = 0, is_replica_dim = False\<rparr>,
             \<lparr>size_dim = 8, degree = 2, parallel_idx = 1, is_replica_dim = False\<rparr>],
     data_type = DT_FLOAT, owner_op = Some 7, owner_idx = 0, create_gradients = True,
     region = 0, region_grad = 0, part = None, part_grad = None, machine_view = [4, 2]\<rparr>"

definition ip_s6 :: IndexPartition where
  "ip_s6 = \<lparr>parent = \<lparr>lo = [0, 0], hi = [15, 7]\<rparr>, color_space = \<lparr>lo = [0, 0], hi = [3, 1]\<rparr>,
     transform = [[4, 0], [0, 4]], extent = \<lparr>lo = [0, 0], hi = [3, 3]\<rparr>\<rparr>"

definition part_s6 :: Rect where
  "part_s6 = \<lparr>lo = [0, 0], hi = [3, 1]\<rparr>"

definition t_s6_mapped :: ParallelTensorBase where
  "t_s6_mapped = t_s6\<lparr>region := 10, region_grad := 11,
     part := Some (10, ip_s6), part_grad := Some (11, ip_s6)\<rparr>"

definition ip_alias :: IndexPartition where
  "ip_alias = \<lparr>parent = \<lparr>lo = [0, 0], hi = [15, 7]\<rparr>, color_space = part_s6,
     transform = [[4, 0], [0, 0]], extent = \<lparr>lo = [0, 0], hi = [3, 7]\<rparr>\<rparr>"

lemma tile_hi_ceil:
  assumes "tile_hi l h nparts = Inr e" and "l \<le> h" and "0 < nparts"
  shows "e + 1 = \<lceil>real_of_int (h - l + 1) / real_of_int nparts\<rceil>"
proof -
  have "e = cpp_div (h - l + nparts) nparts - 1"
    using assms by (simp add: tile_hi_def split: if_splits)
  also have "cpp_div (h - l + nparts) nparts = (h - l + nparts) div nparts"
    using assms by (intro cpp_div_pos) auto
  also have "(h - l + nparts) div nparts = \<lceil>real_of_int (h - l + 1) / real_of_int nparts\<rceil>"
    using ceil_div_pos [OF assms(3), of "h - l + 1"] by (simp add: algebra_simps)
  finally show ?thesis by simp
qed


lemma region_hi_nth:
  assumes "region_hi NDIM ds = Inr hi_pt" and "i < NDIM"
  shows "hi_pt ! i = size_dim (ds ! i) - 1" and "length hi_pt = NDIM"
  using for_each_upt(2) [OF assms(1) [unfolded region_hi_def] assms(2)]
    for_each_upt(1) [OF assms(1) [unfolded region_hi_def]]
  by (auto dest!: ebind_Inr read_at_Inr split: if_splits)

lemma extent_hi_nth:
  assumes "extent_hi NDIM ds al rect = Inr e" and "i < NDIM"
  shows "tile_hi (lo rect ! i) (hi rect ! i) (if al = Some (int i) then 1 else degree (ds ! i))
         = Inr (e ! i)"
  using for_each_upt(2) [OF assms(1) [unfolded extent_hi_def] assms(2)]
  by (auto dest!: ebind_Inr read_at_Inr simp: Let_def split: if_splits)

lemma transform_rows_nth:
  assumes "transform_rows NDIM TDIM ds al ext = Inr tr" and "i < NDIM" and "j < TDIM"
  shows "tr ! i ! j = (if parallel_idx (ds ! i) = int j \<and> al \<noteq> Some (int i)
                       then hi ext ! i - lo ext ! i + 1 else 0)"
proof -
  have "tr ! i = map (\<lambda>j. if parallel_idx (ds ! i) = int j \<and> al \<noteq> Some (int i)
                        then hi ext ! i - lo ext ! i + 1 else 0) [0..<TDIM]"
    using for_each_upt(2) [OF assms(1) [unfolded transform_rows_def] assms(2)]
    by (auto dest!: ebind_Inr read_at_Inr)
  then show ?thesis
    using assms(3) by simp
qed

lemma map_tensor_with_dim2_partition:
  assumes "map_tensor_with_dim2 NDIM TDIM runtime mode part_is h tensor (Some p) = Inr (t', h')"
  shows "\<exists>hi_pt ext_hi tr.
    region_hi NDIM (dims tensor) = Inr hi_pt \<and>
    extent_hi NDIM (dims tensor) None \<lparr>lo = replicate NDIM 0, hi = hi_pt\<rparr> = Inr ext_hi \<and>
    transform_rows NDIM TDIM (dims tensor) None \<lparr>lo = replicate NDIM 0, hi = ext_hi\<rparr> = Inr tr \<and>
    part t' = Some (region t',
       \<lparr>parent = \<lparr>lo = replicate NDIM 0, hi = hi_pt\<rparr>, color_space = part_is,
        transform = tr, extent = \<lparr>lo = replicate NDIM 0, hi = ext_hi\<rparr>\<rparr>) \<and>
    is_index_partition_disjoint runtime
       \<lparr>parent = \<lparr>lo = replicate NDIM 0, hi = hi_pt\<rparr>, color_space = part_is,
        transform = tr, extent = \<lparr>lo = replicate NDIM 0, hi = ext_hi\<rparr>\<rparr> \<and>
    is_index_partition_complete runtime
       \<lparr>parent = \<lparr>lo = replicate NDIM 0, hi = hi_pt\<rparr>, color_space = part_is,
        transform = tr, extent = \<lparr>lo = replicate NDIM 0, hi = ext_hi\<rparr>\<rparr>"
  using assms unfolding map_tensor_with_dim2_def Let_def
  by (auto split: if_splits dest!: ebind_Inr)

lemma create_aliased_partition_with_dim2_partition:
  assumes "create_aliased_partition_with_dim2 NDIM TDIM runtime ds al part_is r rect = Inr (r', ip)"
  shows "\<exists>ext_hi tr.
    extent_hi NDIM ds (Some al) rect = Inr ext_hi \<and>
    transform_rows NDIM TDIM ds (Some al) \<lparr>lo = replicate NDIM 0, hi = ext_hi\<rparr> = Inr tr \<and>
    ip = \<lparr>parent = rect, color_space = part_is, transform = tr,
          extent = \<lparr>lo = replicate NDIM 0, hi = ext_hi\<rparr>\<rparr> \<and>
    r' = r \<and> is_index_partition_complete runtime ip"
  using assms unfolding create_aliased_partition_with_dim2_def Let_def
  by (auto split: if_splits dest!: ebind_Inr)


lemma map_tensor_extents:
  assumes ok: "map_tensor_with_dim2 NDIM TDIM runtime mode part_is h tensor (Some p) = Inr (t', h')"
    and pos: "\<forall>i<NDIM. 0 < size_dim (dims tensor ! i) \<and> 0 < degree (dims tensor ! i)"
  shows "\<exists>ip. part t' = Some (region t', ip) \<and>
      (\<forall>i<NDIM.
         hi (extent ip) ! i - lo (extent ip) ! i + 1 =
           \<lceil>real_of_int (size_dim (dims tensor ! i)) / real_of_int (degree (dims tensor ! i))\<rceil> \<and>
         (\<forall>j<TDIM. transform ip ! i ! j =
            (if parallel_idx (dims tensor ! i) = int j
             then \<lceil>real_of_int (size_dim (dims tensor ! i)) / real_of_int (degree (dims tensor ! i))\<rceil>
             else 0))) \<and>
      is_index_partition_disjoint runtime ip \<and> is_index_partition_complete runtime ip"
proof -
  from map_tensor_with_dim2_partition [OF ok] obtain hi_pt ext_hi tr where
    rh: "region_hi NDIM (dims tensor) = Inr hi_pt" and
    eh: "extent_hi NDIM (dims tensor) None \<lparr>lo = replicate NDIM 0, hi = hi_pt\<rparr> = Inr ext_hi" and
    tr: "transform_rows NDIM TDIM (dims tensor) None \<lparr>lo = replicate NDIM 0, hi = ext_hi\<rparr> = Inr tr" and
    part: "part t' = Some (region t',
       \<lparr>parent = \<lparr>lo = replicate NDIM 0, hi = hi_pt\<rparr>, color_space = part_is,
        transform = tr, extent = \<lparr>lo = replicate NDIM 0, hi = ext_hi\<rparr>\<rparr>)" and
    dj: "is_index_partition_disjoint runtime
       \<lparr>parent = \<lparr>lo = replicate NDIM 0, hi = hi_pt\<rparr>, color_space = part_is,
        transform = tr, extent = \<lparr>lo = replicate NDIM 0, hi = ext_hi\<rparr>\<rparr>" and
    cp: "is_index_partition_complete runtime
       \<lparr>parent = \<lparr>lo = replicate NDIM 0, hi = hi_pt\<rparr>, color_space = part_is,
        transform = tr, extent = \<lparr>lo = replicate NDIM 0, hi = ext_hi\<rparr>\<rparr>"
    by blast
  have ext: "ext_hi ! i + 1 =
      \<lceil>real_of_int (size_dim (dims tensor ! i)) / real_of_int (degree (dims tensor ! i))\<rceil>"
    if i: "i < NDIM" for i
  proof -
    have t: "tile_hi 0 (size_dim (dims tensor ! i) - 1) (degree (dims tensor ! i)) = Inr (ext_hi ! i)"
      using extent_hi_nth [OF eh i] region_hi_nth(1) [OF rh i] i by simp
    show ?thesis
      using tile_hi_ceil [OF t] pos i by simp
  qed
  have row: "tr ! i ! j =
      (if parallel_idx (dims tensor ! i) = int j
       then \<lceil>real_of_int (size_dim (dims tensor ! i)) / real_of_int (degree (dims tensor ! i))\<rceil>
       else 0)"
    if i: "i < NDIM" and j: "j < TDIM" for i j
    using transform_rows_nth [OF tr i j] ext [OF i] i by simp
  let ?ip = "\<lparr>parent = \<lparr>lo = replicate NDIM 0, hi = hi_pt\<rparr>, color_space = part_is,
        transform = tr, extent = \<lparr>lo = replicate NDIM 0, hi = ext_hi\<rparr>\<rparr>"
  show ?thesis
  proof (rule exI [of _ ?ip], intro conjI allI impI)
    show "part t' = Some (region t', ?ip)"
      by (rule part)
    show "is_index_partition_disjoint runtime ?ip"
      by (rule dj)
    show "is_index_partition_complete runtime ?ip"
      by (rule cp)
  next
    fix i assume "i < NDIM"
    then show "hi (extent ?ip) ! i - lo (extent ?ip) ! i + 1 =
        \<lceil>real_of_int (size_dim (dims tensor ! i)) / real_of_int (degree (dims tensor ! i))\<rceil>"
      using ext [of i] by simp
  next
    fix i j assume "i < NDIM" "j < TDIM"
    then show "transform ?ip ! i ! j =
        (if parallel_idx (dims tensor ! i) = int j
         then \<lceil>real_of_int (size_dim (dims tensor ! i)) / real_of_int (degree (dims tensor ! i))\<rceil>
         else 0)"
      using row [of i j] by simp
  qed
qed

lemma aliased_partition_extents:
  assumes ok: "create_aliased_partition_with_dim2 NDIM TDIM runtime ds al part_is r rect = Inr (r', ip)"
    and al: "0 \<le> al" "al < int NDIM"
  shows "hi (extent ip) ! nat al - lo (extent ip) ! nat al + 1 = hi rect ! nat al - lo rect ! nat al + 1"
    and "\<forall>j<TDIM. transform ip ! nat al ! j = 0"
    and "is_index_partition_complete runtime ip"
    and "create_aliased_partition_with_dim2 NDIM TDIM
           (runtime\<lparr>is_index_partition_disjoint := answer\<rparr>) ds al part_is r rect = Inr (r', ip)"
proof -
  from create_aliased_partition_with_dim2_partition [OF ok] obtain ext_hi tr where
    eh: "extent_hi NDIM ds (Some al) rect = Inr ext_hi" and
    tr: "transform_rows NDIM TDIM ds (Some al) \<lparr>lo = replicate NDIM 0, hi = ext_hi\<rparr> = Inr tr" and
    ip: "ip = \<lparr>parent = rect, color_space = part_is, transform = tr,
          extent = \<lparr>lo = replicate NDIM 0, hi = ext_hi\<rparr>\<rparr>" and
    cp: "is_index_partition_complete runtime ip"
    by blast
  have n: "nat al < NDIM" "int (nat al) = al"
    using al by simp_all
  have "tile_hi (lo rect ! nat al) (hi rect ! nat al) 1 = Inr (ext_hi ! nat al)"
    using extent_hi_nth [OF eh n(1)] n(2) by simp
  then have "ext_hi ! nat al = hi rect ! nat al - lo rect ! nat al"
    by (simp add: tile_hi_def cpp_div_one)
  then show "hi (extent ip) ! nat al - lo (extent ip) ! nat al + 1 =
      hi rect ! nat al - lo rect ! nat al + 1"
    using n(1) by (simp add: ip)
  show "\<forall>j<TDIM. transform ip ! nat al ! j = 0"
    using transform_rows_nth [OF tr n(1)] n(2) by (simp add: ip)
  show "is_index_partition_complete runtime ip"
    by (rule cp)
  show "create_aliased_partition_with_dim2 NDIM TDIM
           (runtime\<lparr>is_index_partition_disjoint := answer\<rparr>) ds al part_is r rect = Inr (r', ip)"
    using ok by (simp add: create_aliased_partition_with_dim2_def)
qed

text \<open>
  C5: for a tensor that \<open>map_tensor_with_dim2\<close> maps with a partition, the tile extent in each
  dimension is \<open>ceil(size / degree)\<close>, \<open>transform[i][j]\<close> is that extent when the dimension's
  \<open>parallel_idx\<close> is \<open>j\<close> and 0 otherwise, and the partition is disjoint and complete. The
  aliased variant gives the aliased dimension one part (its extent is the whole dimension and
  its transform row is zero) and asserts completeness only: its result does not depend on
  what the runtime answers about disjointness.
\<close>

theorem region_mapper_partition:
  "(map_tensor_with_dim2 NDIM TDIM runtime mode part_is h tensor (Some p) = Inr (t', h') \<and>
    (\<forall>i<NDIM. 0 < size_dim (dims tensor ! i) \<and> 0 < degree (dims tensor ! i)) \<longrightarrow>
    (\<exists>ip. part t' = Some (region t', ip) \<and>
      (\<forall>i<NDIM.
         hi (extent ip) ! i - lo (extent ip) ! i + 1 =
           \<lceil>real_of_int (size_dim (dims tensor ! i)) / real_of_int (degree (dims tensor ! i))\<rceil> \<and>
         (\<forall>j<TDIM. transform ip ! i ! j =
            (if parallel_idx (dims tensor ! i) = int j
             then \<lceil>real_of_int (size_dim (dims tensor ! i)) / real_of_int (degree (dims tensor ! i))\<rceil>
             else 0))) \<and>
      is_index_partition_disjoint runtime ip \<and> is_index_partition_complete runtime ip)) \<and>
   (create_aliased_partition_with_dim2 NDIM' TDIM' runtime ds al part_is' r rect = Inr (r', ip') \<and>
    0 \<le> al \<and> al < int NDIM' \<longrightarrow>
    hi (extent ip') ! nat al - lo (extent ip') ! nat al + 1 =
      hi rect ! nat al - lo rect ! nat al + 1 \<and>
    (\<forall>j<TDIM'. transform ip' ! nat al ! j = 0) \<and>
    is_index_partition_complete runtime ip' \<and>
    (\<forall>answer. create_aliased_partition_with_dim2 NDIM' TDIM'
        (runtime\<lparr>is_index_partition_disjoint := answer\<rparr>) ds al part_is' r rect = Inr (r', ip')))"
proof (intro conjI impI)
  assume "map_tensor_with_dim2 NDIM TDIM runtime mode part_is h tensor (Some p) = Inr (t', h') \<and>
    (\<forall>i<NDIM. 0 < size_dim (dims tensor ! i) \<and> 0 < degree (dims tensor ! i))"
  then have ok: "map_tensor_with_dim2 NDIM TDIM runtime mode part_is h tensor (Some p) = Inr (t', h')"
    and pos: "\<forall>i<NDIM. 0 < size_dim (dims tensor ! i) \<and> 0 < degree (dims tensor ! i)"
    by (rule conjunct1, rule conjunct2)
  show "\<exists>ip. part t' = Some (region t', ip) \<and>
      (\<forall>i<NDIM.
         hi (extent ip) ! i - lo (extent ip) ! i + 1 =
           \<lceil>real_of_int (size_dim (dims tensor ! i)) / real_of_int (degree (dims tensor ! i))\<rceil> \<and>
         (\<forall>j<TDIM. transform ip ! i ! j =
            (if parallel_idx (dims tensor ! i) = int j
             then \<lceil>real_of_int (size_dim (dims tensor ! i)) / real_of_int (degree (dims tensor ! i))\<rceil>
             else 0))) \<and>
      is_index_partition_disjoint runtime ip \<and> is_index_partition_complete runtime ip"
    by (rule map_tensor_extents [OF ok pos])
next
  assume a: "create_aliased_partition_with_dim2 NDIM' TDIM' runtime ds al part_is' r rect = Inr (r', ip') \<and>
    0 \<le> al \<and> al < int NDIM'"
  then have ok: "create_aliased_partition_with_dim2 NDIM' TDIM' runtime ds al part_is' r rect = Inr (r', ip')"
    by (rule conjunct1)
  from a have al: "0 \<le> al" "al < int NDIM'"
    by simp_all
  show "hi (extent ip') ! nat al - lo (extent ip') ! nat al + 1 =
      hi rect ! nat al - lo rect ! nat al + 1"
    by (rule aliased_partition_extents(1) [OF ok al])
  show "\<forall>j<TDIM'. transform ip' ! nat al ! j = 0"
    by (rule aliased_partition_extents(2) [OF ok al])
  show "is_index_partition_complete runtime ip'"
    by (rule aliased_partition_extents(3) [OF ok al])
  show "\<forall>answer. create_aliased_partition_with_dim2 NDIM' TDIM'
        (runtime\<lparr>is_index_partition_disjoint := answer\<rparr>) ds al part_is' r rect = Inr (r', ip')"
    by (rule allI) (rule aliased_partition_extents(4) [OF ok al])
qed


theorem region_mapper_partition_witness:
  "map_tensor_with_dim2 2 2 legion COMP_MODE_TRAINING part_s6 10 t_s6 (Some 7)
     = Inr (t_s6_mapped, 12) \<and>
   (\<exists>ip. part t_s6_mapped = Some (region t_s6_mapped, ip) \<and>
      (\<forall>i<2.
         hi (extent ip) ! i - lo (extent ip) ! i + 1 =
           \<lceil>real_of_int (size_dim (dims t_s6 ! i)) / real_of_int (degree (dims t_s6 ! i))\<rceil> \<and>
         (\<forall>j<2. transform ip ! i ! j =
            (if parallel_idx (dims t_s6 ! i) = int j
             then \<lceil>real_of_int (size_dim (dims t_s6 ! i)) / real_of_int (degree (dims t_s6 ! i))\<rceil>
             else 0))) \<and>
      is_index_partition_disjoint legion ip \<and> is_index_partition_complete legion ip) \<and>
   create_aliased_partition_with_dim2 2 2 legion (dims t_s6) 1 part_s6 10
     \<lparr>lo = [0, 0], hi = [15, 7]\<rparr> = Inr (10, ip_alias) \<and>
   hi (extent ip_alias) ! nat 1 - lo (extent ip_alias) ! nat 1 + 1 = 7 - 0 + 1 \<and>
   is_index_partition_complete legion ip_alias \<and>
   \<not> restriction_disjoint ip_alias"
proof -
  have m: "map_tensor_with_dim2 2 2 legion COMP_MODE_TRAINING part_s6 10 t_s6 (Some 7)
     = Inr (t_s6_mapped, 12)"
    by code_simp
  have pos: "\<forall>i<2. 0 < size_dim (dims t_s6 ! i) \<and> 0 < degree (dims t_s6 ! i)"
    by (simp add: t_s6_def less_2_cases_iff)
  have a: "create_aliased_partition_with_dim2 2 2 legion (dims t_s6) 1 part_s6 10
     \<lparr>lo = [0, 0], hi = [15, 7]\<rparr> = Inr (10, ip_alias)"
    by code_simp
  have nd: "\<not> restriction_disjoint ip_alias"
    by code_simp
  note inst = region_mapper_partition [where NDIM = 2 and TDIM = 2 and runtime = legion
      and mode = COMP_MODE_TRAINING and part_is = part_s6 and h = 10 and tensor = t_s6
      and p = 7 and t' = t_s6_mapped and h' = 12 and NDIM' = 2 and TDIM' = 2
      and ds = "dims t_s6" and al = 1 and part_is' = part_s6 and r = 10
      and rect = "\<lparr>lo = [0, 0], hi = [15, 7]\<rparr>" and r' = 10 and ip' = ip_alias]
  have c1: "\<exists>ip. part t_s6_mapped = Some (region t_s6_mapped, ip) \<and>
      (\<forall>i<2.
         hi (extent ip) ! i - lo (extent ip) ! i + 1 =
           \<lceil>real_of_int (size_dim (dims t_s6 ! i)) / real_of_int (degree (dims t_s6 ! i))\<rceil> \<and>
         (\<forall>j<2. transform ip ! i ! j =
            (if parallel_idx (dims t_s6 ! i) = int j
             then \<lceil>real_of_int (size_dim (dims t_s6 ! i)) / real_of_int (degree (dims t_s6 ! i))\<rceil>
             else 0))) \<and>
      is_index_partition_disjoint legion ip \<and> is_index_partition_complete legion ip"
    by (rule inst [THEN conjunct1, THEN mp, OF conjI [OF m pos]])
  have al: "(0::int) \<le> 1 \<and> (1::int) < int 2"
    by simp
  have c2: "hi (extent ip_alias) ! nat 1 - lo (extent ip_alias) ! nat 1 + 1 =
      hi \<lparr>lo = [0, 0], hi = [15, 7]\<rparr> ! nat 1 - lo \<lparr>lo = [0, 0], hi = [15, 7]\<rparr> ! nat 1 + 1 \<and>
    (\<forall>j<2. transform ip_alias ! nat 1 ! j = 0) \<and>
    is_index_partition_complete legion ip_alias \<and>
    (\<forall>answer. create_aliased_partition_with_dim2 2 2
        (legion\<lparr>is_index_partition_disjoint := answer\<rparr>) (dims t_s6) 1 part_s6 10
        \<lparr>lo = [0, 0], hi = [15, 7]\<rparr> = Inr (10, ip_alias))"
    by (rule inst [THEN conjunct2, THEN mp, OF conjI [OF a al]])
  from c2 have c3: "hi (extent ip_alias) ! nat 1 - lo (extent ip_alias) ! nat 1 + 1 = 7 - 0 + 1"
    by simp
  from c2 have c4: "is_index_partition_complete legion ip_alias"
    by (rule conjunct2 [THEN conjunct2, THEN conjunct1])
  show ?thesis
    by (intro conjI) (rule m c1 a c3 c4 nd)+
qed

section \<open>Operators and the model\<close>

text \<open>
  An operator is the record of the fields of \<open>Op\<close> that the sources read or write, with its
  address; what a subclass adds is in \<open>derived\<close>. \<open>inputs\<close> and \<open>outputs\<close> are the slots that
  hold a tensor, in order: a slot past them holds no tensor, and the C++ has undefined
  behaviour when it dereferences one (\<open>InvalidPointer\<close>). A tensor pointer is modelled by
  the tensor it points to. \<open>float\<close> values are only stored, copied and compared; they are
  reals here.
\<close>

datatype OpData =
    PlainOp
  | NoOpData (input_tensor_guid: size_t)
  | RepartitionData (repartition_dim: int) (repartition_degree: int)
  | AggregateData (agg_n: int) (lambda_bal: real)

record Op =
  op_addr :: op_ptr
  op_type :: OperatorType
  op_data_type :: DataType
  op_name :: string
  numInputs :: int
  numWeights :: int
  numOutputs :: int
  inputs :: "ParallelTensorBase list"
  outputs :: "ParallelTensorBase list"
  inplace_output :: bool
  derived :: OpData

record FFConfig =
  only_data_parallel :: bool
  numNodes :: int
  workersPerNode :: int

record FFModel =
  config :: FFConfig
  parallel_tensor_global_guid :: size_t
  operators :: "Op list"
  next_op_addr :: op_ptr

text \<open>
  Constants and the validity check of a parallel tensor are declared in headers that are not
  among the sources; they are parameters. \<open>unset_dim\<close> is the content of a \<open>ParallelDim\<close>
  that nothing has written yet.
\<close>

record Constants =
  MAX_TENSOR_DIM :: nat
  LEGION_MAX_DIM :: nat
  AGGREGATE_MAX_N :: int
  AGGREGATE_MAX_K :: int
  AGGREGATE_MAX_BATCH_SIZE :: int
  unset_dim :: ParallelDim
  check_valid :: "ParallelTensorBase \<Rightarrow> bool"

text \<open>The constants of the examples.\<close>

definition K_example :: Constants where
  "K_example = \<lparr>MAX_TENSOR_DIM = 5, LEGION_MAX_DIM = 5, AGGREGATE_MAX_N = 12,
     AGGREGATE_MAX_K = 4, AGGREGATE_MAX_BATCH_SIZE = 64,
     unset_dim = \<lparr>size_dim = 0, degree = 1, parallel_idx = - 1, is_replica_dim = False\<rparr>,
     check_valid = (\<lambda>t. 0 < num_dims t)\<rparr>"

definition input_at :: "Op \<Rightarrow> int \<Rightarrow> error + ParallelTensorBase" where
  "input_at op k =
     (if 0 \<le> k \<and> k < int (length (inputs op)) then Inr (inputs op ! nat k) else Inl InvalidPointer)"

definition output_at :: "Op \<Rightarrow> int \<Rightarrow> error + ParallelTensorBase" where
  "output_at op k =
     (if 0 \<le> k \<and> k < int (length (outputs op)) then Inr (outputs op ! nat k)
      else Inl InvalidPointer)"

text \<open>
  Modelled from the spec: the constructor of the base class \<open>Op\<close> is not among the sources.
  An operator has a kind tag, input, output and weight slots; the constructor stores the kind,
  the data type, the name, the three counts and the first \<open>numInputs\<close> tensors it is given.
\<close>

definition Op_ctor ::
  "op_ptr \<Rightarrow> OperatorType \<Rightarrow> DataType \<Rightarrow> string \<Rightarrow> int \<Rightarrow> int \<Rightarrow> int \<Rightarrow>
   ParallelTensorBase list \<Rightarrow> error + Op" where
  "Op_ctor this otype dtype name n_in n_w n_out tensors =
     ebind (for_each [0..<nat n_in] (\<lambda>i.
              if i < length tensors then Inr (tensors ! i) else Inl InvalidPointer)) (\<lambda>ins.
     Inr \<lparr>op_addr = this, op_type = otype, op_data_type = dtype, op_name = name,
          numInputs = n_in, numWeights = n_w, numOutputs = n_out, inputs = ins, outputs = [],
          inplace_output = False, derived = PlainOp\<rparr>)"

text \<open>
  \<open>create_parallel_tensor<NDIM>\<close>. With no owner it creates the input operator that owns the
  tensor and appends it to the operators of the model. The input operator points to the
  tensor, so it sees the fields written after its construction: the model builds it from the
  finished tensor. Modelled from the spec: the constructor of \<open>NoOp\<close> is not among the
  sources; it makes a synthetic input operator with no input and the tensor as its one output.
\<close>

definition create_parallel_tensor_N ::
  "Constants \<Rightarrow> nat \<Rightarrow> FFModel \<Rightarrow> ParallelDim list \<Rightarrow> DataType \<Rightarrow> op_ptr option \<Rightarrow> int \<Rightarrow> bool \<Rightarrow>
   size_t \<Rightarrow> error + (ParallelTensorBase \<times> FFModel)" where
  "create_parallel_tensor_N K NDIM m dims_arg dtype owner owner_i create_grad input_guid =
     (let guid = parallel_tensor_global_guid m;
          m1 = m\<lparr>parallel_tensor_global_guid := guid + 1\<rparr>;
          this = next_op_addr m1
      in
      ebind (copy_loop NDIM dims_arg (\<lambda>i. int NDIM - 1 - int i)
               (replicate (MAX_TENSOR_DIM K) (unset_dim K))) (\<lambda>arr.
      let tensor = \<lparr>parallel_tensor_guid = guid, num_dims = int NDIM, dims = arr,
                     data_type = dtype,
                     owner_op = (if owner = None then Some this else owner),
                     owner_idx = (if owner = None then 0 else owner_i),
                     create_gradients = create_grad, region = 0, region_grad = 0,
                     part = None, part_grad = None, machine_view = []\<rparr>;
          input_op = \<lparr>op_addr = this, op_type = OP_INPUT, op_data_type = DT_NONE, op_name = [],
                       numInputs = 0, numWeights = 0, numOutputs = 1, inputs = [],
                       outputs = [tensor], inplace_output = False,
                       derived = NoOpData input_guid\<rparr>;
          m2 = (if owner = None
                then m1\<lparr>operators := operators m1 @ [input_op], next_op_addr := this + 1\<rparr>
                else m1)
      in
      ebind (assert_that (check_valid K tensor)) (\<lambda>_. Inr (tensor, m2))))"

text \<open>The switch over \<open>LEGION_FOREACH_N\<close>: one case for each of 1, ..., \<open>LEGION_MAX_DIM\<close>.\<close>

definition create_parallel_tensor ::
  "Constants \<Rightarrow> FFModel \<Rightarrow> int \<Rightarrow> ParallelDim list \<Rightarrow> DataType \<Rightarrow> op_ptr option \<Rightarrow> int \<Rightarrow> bool \<Rightarrow>
   size_t \<Rightarrow> error + (ParallelTensorBase \<times> FFModel)" where
  "create_parallel_tensor K m numdim dims_arg dtype owner owner_i create_grad input_guid =
     (if 1 \<le> numdim \<and> numdim \<le> int (LEGION_MAX_DIM K)
      then create_parallel_tensor_N K (nat numdim) m dims_arg dtype owner owner_i create_grad input_guid
      else Inl AssertionFailure)"

definition create_parallel_tensor_legion_ordering ::
  "Constants \<Rightarrow> FFModel \<Rightarrow> int \<Rightarrow> ParallelDim list \<Rightarrow> DataType \<Rightarrow> op_ptr option \<Rightarrow> int \<Rightarrow> bool \<Rightarrow>
   size_t \<Rightarrow> error + (ParallelTensorBase \<times> FFModel)" where
  "create_parallel_tensor_legion_ordering K m numdim dims_arg dtype owner owner_i create_grad input_guid =
     ebind (copy_loop (nat numdim) dims_arg (\<lambda>i. numdim - 1 - int i)
              (replicate (MAX_TENSOR_DIM K) (unset_dim K))) (\<lambda>c_dims.
     create_parallel_tensor K m numdim c_dims dtype owner owner_i create_grad input_guid)"

text \<open>The two reversals cancel: the tensor gets the first \<open>numdim\<close> entries in the order given.\<close>

lemma create_parallel_tensor_legion_ordering_Inr:
  assumes "create_parallel_tensor_legion_ordering K m numdim ds dtype owner oi cg g = Inr (t, m')"
  shows "1 \<le> numdim" and "num_dims t = numdim" and "data_type t = dtype"
    and "\<And>i. i < nat numdim \<Longrightarrow> dims t ! i = ds ! i"
    and "owner \<noteq> None \<Longrightarrow> owner_op t = owner \<and> operators m' = operators m"
    and "owner = None \<Longrightarrow> owner_op t = Some (next_op_addr m) \<and>
           (\<exists>inp. operators m' = operators m @ [inp] \<and> op_type inp = OP_INPUT \<and>
              outputs inp = [t] \<and> derived inp = NoOpData g)"
    and "check_valid K t"
    and "config m' = config m"
    and "length (dims t) = MAX_TENSOR_DIM K"
proof -
  from assms obtain c where c: "copy_loop (nat numdim) ds (\<lambda>i. numdim - 1 - int i)
      (replicate (MAX_TENSOR_DIM K) (unset_dim K)) = Inr c"
    and cr: "create_parallel_tensor K m numdim c dtype owner oi cg g = Inr (t, m')"
    unfolding create_parallel_tensor_legion_ordering_def by (auto dest!: ebind_Inr)
  from cr have nd: "1 \<le> numdim" "numdim \<le> int (LEGION_MAX_DIM K)"
    and n: "create_parallel_tensor_N K (nat numdim) m c dtype owner oi cg g = Inr (t, m')"
    unfolding create_parallel_tensor_def by (auto split: if_splits)
  from n obtain arr where arr: "copy_loop (nat numdim) c (\<lambda>i. int (nat numdim) - 1 - int i)
      (replicate (MAX_TENSOR_DIM K) (unset_dim K)) = Inr arr"
    and t: "dims t = arr" "num_dims t = int (nat numdim)" "data_type t = dtype"
      "owner_op t = (if owner = None then Some (next_op_addr m) else owner)"
    and cv: "check_valid K t"
    and cf: "config m' = config m"
    and ops: "owner \<noteq> None \<Longrightarrow> operators m' = operators m"
      "owner = None \<Longrightarrow> \<exists>inp. operators m' = operators m @ [inp] \<and> op_type inp = OP_INPUT \<and>
              outputs inp = [t] \<and> derived inp = NoOpData g"
    unfolding create_parallel_tensor_N_def Let_def
    by (auto dest!: ebind_Inr assert_that_Inr split: if_splits)
  show "1 \<le> numdim" by (rule nd)
  show "num_dims t = numdim" using t nd by simp
  show "data_type t = dtype" by (rule t)
  show "check_valid K t" by (rule cv)
  show "config m' = config m" by (rule cf)
  show "length (dims t) = MAX_TENSOR_DIM K"
    using copy_loop_Inr [OF arr] t by simp
  show "owner \<noteq> None \<Longrightarrow> owner_op t = owner \<and> operators m' = operators m"
    using t ops by simp
  show "owner = None \<Longrightarrow> owner_op t = Some (next_op_addr m) \<and>
           (\<exists>inp. operators m' = operators m @ [inp] \<and> op_type inp = OP_INPUT \<and>
              outputs inp = [t] \<and> derived inp = NoOpData g)"
    using t ops by simp
  show "dims t ! i = ds ! i" if i: "i < nat numdim" for i
  proof -
    let ?N = "nat numdim"
    have j: "?N - 1 - i < ?N"
      using i by simp
    from copy_loop_Inr [OF arr] i have "arr ! i = c ! nat (int ?N - 1 - int i)"
      by blast
    also have "nat (int ?N - 1 - int i) = ?N - 1 - i"
      using i by linarith
    also from copy_loop_Inr [OF c] j have "c ! (?N - 1 - i) = ds ! nat (numdim - 1 - int (?N - 1 - i))"
      by blast
    also have "nat (numdim - 1 - int (?N - 1 - i)) = i"
      using i nd by linarith
    finally show ?thesis
      by (simp add: t)
  qed
qed

lemma Op_ctor_Inr:
  assumes "Op_ctor this otype dtype name n_in n_w n_out tensors = Inr op"
  shows "length (inputs op) = nat n_in" and "numInputs op = n_in" and "op_type op = otype"
    and "\<And>i. i < nat n_in \<Longrightarrow> i < length tensors \<and> inputs op ! i = tensors ! i"
proof -
  from assms obtain ins where
    ins: "for_each [0..<nat n_in] (\<lambda>i.
            if i < length tensors then Inr (tensors ! i) else Inl InvalidPointer) = Inr ins"
    and op: "inputs op = ins" "numInputs op = n_in" "op_type op = otype"
    unfolding Op_ctor_def by (auto dest!: ebind_Inr)
  show "length (inputs op) = nat n_in"
    using for_each_upt(1) [OF ins] op by simp
  show "numInputs op = n_in" "op_type op = otype"
    by (rule op)+
  show "i < length tensors \<and> inputs op ! i = tensors ! i" if "i < nat n_in" for i
    using for_each_upt(2) [OF ins that] op by (auto split: if_splits)
qed

lemma input_at_Inr:
  "input_at op k = Inr t \<Longrightarrow> 0 \<le> k \<and> nat k < length (inputs op) \<and> t = inputs op ! nat k"
  by (auto simp: input_at_def split: if_splits)

section \<open>The layer lifter\<close>






















section \<open>The aggregate operator\<close>

subsection \<open>Construction and output shape\<close>

text \<open>
  The assertions of \<open>Aggregate::Aggregate\<close> on the four gate inputs, in the order of the
  source.
\<close>

definition aggregate_gate_checks :: "Constants \<Rightarrow> Op \<Rightarrow> int \<Rightarrow> error + unit" where
  "aggregate_gate_checks K op n =
     ebind (assert_that (n \<le> AGGREGATE_MAX_N K)) (\<lambda>_.
     ebind (input_at op 0) (\<lambda>in0.
     ebind (read_at (dims in0) 0) (\<lambda>in0_d0.
     ebind (assert_that (size_dim in0_d0 \<le> AGGREGATE_MAX_K K)) (\<lambda>_.
     ebind (read_at (dims in0) 1) (\<lambda>in0_d1.
     ebind (assert_that (size_dim in0_d1 \<le> AGGREGATE_MAX_BATCH_SIZE K)) (\<lambda>_.
     ebind (assert_that (n + 4 = numInputs op)) (\<lambda>_.
     ebind (assert_that (n > 0)) (\<lambda>_.
     ebind (assert_that (num_dims in0 = 2 + 1)) (\<lambda>_.
     ebind (input_at op 1) (\<lambda>in1.
     ebind (assert_that (num_dims in1 = 2 + 1)) (\<lambda>_.
     ebind (input_at op 2) (\<lambda>in2.
     ebind (assert_that (num_dims in2 = 2 + 1)) (\<lambda>_.
     ebind (input_at op 3) (\<lambda>in3.
     ebind (assert_that (num_dims in3 = 2 + 1)) (\<lambda>_.
     ebind (for_fold [0..<nat (num_dims in0)] (\<lambda>i _.
              ebind (read_at (dims in0) (int i)) (\<lambda>a.
              ebind (read_at (dims in1) (int i)) (\<lambda>b.
              ebind (assert_that (a = b)) (\<lambda>_.
              ebind (read_at (dims in2) (int i)) (\<lambda>c.
              assert_that (a = c)))))) ()) (\<lambda>_.
     ebind (read_at (dims in3) 1) (\<lambda>in3_d1.
     ebind (assert_that (in0_d1 = in3_d1)) (\<lambda>_.
     ebind (read_at (dims in3) 0) (\<lambda>in3_d0.
     assert_that (size_dim in3_d0 = n))))))))))))))))))))"

text \<open>The assertions on the expert inputs 1, ..., \<open>n - 1\<close>.\<close>

definition aggregate_expert_checks :: "Op \<Rightarrow> int \<Rightarrow> int \<Rightarrow> int \<Rightarrow> error + unit" where
  "aggregate_expert_checks op n num_dim out_dim =
     for_fold [1..<nat n] (\<lambda>i _.
       ebind (input_at op (int i + 4)) (\<lambda>e.
       ebind (assert_that (num_dims e = num_dim)) (\<lambda>_.
       ebind (read_at (dims e) 0) (\<lambda>d.
       assert_that (size_dim d = out_dim))))) ()"

text \<open>
  The output shape: \<open>dims[i] = inputs[4]->dims[i]\<close> for \<open>i < num_dim - 1\<close>, then
  \<open>dims[num_dim - 2]\<close> and \<open>dims[num_dim - 1]\<close> from \<open>inputs[0]\<close>.
\<close>

definition aggregate_output_dims ::
  "Constants \<Rightarrow> ParallelTensorBase \<Rightarrow> ParallelTensorBase \<Rightarrow> error + ParallelDim list" where
  "aggregate_output_dims K in0 in4 =
     (let num_dim = num_dims in4 in
      ebind (copy_loop (nat (num_dim - 1)) (dims in4) int
               (replicate (MAX_TENSOR_DIM K) (unset_dim K))) (\<lambda>dims1.
      ebind (read_at (dims in0) (num_dim - 2)) (\<lambda>g2.
      ebind (write_at dims1 (num_dim - 2) g2) (\<lambda>dims2.
      ebind (read_at (dims in0) (num_dim - 1)) (\<lambda>g1.
      write_at dims2 (num_dim - 1) g1)))))"

text \<open>
  \<open>Aggregate::Aggregate(model, _inputs, _n, _lambda_bal, name)\<close>, for the object at address
  \<open>this\<close>. The call of \<open>create_parallel_tensor_legion_ordering\<close> leaves the owner index, the
  gradient flag and the input guid to the defaults of its declaration, which is not among the
  sources: 0, true and 0 here.
\<close>

definition Aggregate_ctor ::
  "Constants \<Rightarrow> FFModel \<Rightarrow> op_ptr \<Rightarrow> ParallelTensorBase list \<Rightarrow> int \<Rightarrow> real \<Rightarrow> string \<Rightarrow>
   error + (Op \<times> FFModel)" where
  "Aggregate_ctor K model this inputs_arg n_arg lambda_arg name =
     (if 2 ^ 31 - 1 < n_arg + 4 then Inl SignedOverflow
      else
        ebind (Op_ctor this OP_AGGREGATE DT_FLOAT name (n_arg + 4) 0 1 inputs_arg) (\<lambda>op0.
        let op1 = op0\<lparr>derived := AggregateData n_arg lambda_arg\<rparr> in
        ebind (aggregate_gate_checks K op1 n_arg) (\<lambda>_.
        ebind (input_at op1 4) (\<lambda>in4.
        ebind (read_at (dims in4) 0) (\<lambda>in4_d0.
        ebind (aggregate_expert_checks op1 n_arg (num_dims in4) (size_dim in4_d0)) (\<lambda>_.
        ebind (input_at op1 0) (\<lambda>in0.
        ebind (aggregate_output_dims K in0 in4) (\<lambda>dims3.
        ebind (create_parallel_tensor_legion_ordering K model (num_dims in4) dims3 DT_FLOAT
                 (Some this) 0 True 0) (\<lambda>(out, model').
        Inr (op1\<lparr>numOutputs := 1, outputs := [out], numWeights := 0\<rparr>, model'))))))))))"

text \<open>Scenario S2: three experts of shape [16, 32, 1], gate inputs of shape [4, 8, 1].\<close>

definition plain_dim :: "int \<Rightarrow> ParallelDim" where
  "plain_dim s = \<lparr>size_dim = s, degree = 1, parallel_idx = - 1, is_replica_dim = False\<rparr>"

definition replica_dim :: ParallelDim where
  "replica_dim = \<lparr>size_dim = 1, degree = 1, parallel_idx = - 1, is_replica_dim = True\<rparr>"

definition example_tensor :: "size_t \<Rightarrow> DataType \<Rightarrow> int \<Rightarrow> int \<Rightarrow> ParallelTensorBase" where
  "example_tensor g dt a b =
     \<lparr>parallel_tensor_guid = g, num_dims = 3,
      dims = [plain_dim a, plain_dim b, replica_dim, unset_dim K_example, unset_dim K_example],
      data_type = dt, owner_op = Some (unat g), owner_idx = 0, create_gradients = True,
      region = 0, region_grad = 0, part = None, part_grad = None, machine_view = [1]\<rparr>"

definition s2_inputs :: "ParallelTensorBase list" where
  "s2_inputs =
     [example_tensor 1 DT_FLOAT 4 8, example_tensor 2 DT_INT32 4 8, example_tensor 3 DT_INT32 4 8,
      example_tensor 4 DT_FLOAT 3 8,
      example_tensor 5 DT_FLOAT 16 32, example_tensor 6 DT_FLOAT 16 32,
      example_tensor 7 DT_FLOAT 16 32]"

definition s2_model :: FFModel where
  "s2_model = \<lparr>config = \<lparr>only_data_parallel = False, numNodes = 1, workersPerNode = 4\<rparr>,
     parallel_tensor_global_guid = 8, operators = [], next_op_addr = 8\<rparr>"

definition s2_aggregate :: "error + (Op \<times> FFModel)" where
  "s2_aggregate = Aggregate_ctor K_example s2_model 100 s2_inputs 3 (1 / 10) ''aggregate''"

text \<open>The sizes of the dimensions in use of the one output, and its element type.\<close>

definition output_shape :: "error + (Op \<times> FFModel) \<Rightarrow> (int list \<times> DataType) option" where
  "output_shape r =
     (case r of
        Inl e \<Rightarrow> None
      | Inr (op, m) \<Rightarrow>
          (case outputs op of
             [out] \<Rightarrow> Some (map size_dim (take (nat (num_dims out)) (dims out)), data_type out)
           | _ \<Rightarrow> None))"

lemma aggregate_output_dims_Inr:
  assumes "aggregate_output_dims K in0 in4 = Inr d3"
  shows "2 \<le> num_dims in4"
    and "\<And>i. int i < num_dims in4 - 2 \<Longrightarrow> d3 ! i = dims in4 ! i"
    and "d3 ! nat (num_dims in4 - 2) = dims in0 ! nat (num_dims in4 - 2)"
    and "d3 ! nat (num_dims in4 - 1) = dims in0 ! nat (num_dims in4 - 1)"
proof -
  let ?nd = "num_dims in4"
  from assms obtain d1 g2 d2 g1 where
    d1: "copy_loop (nat (?nd - 1)) (dims in4) int
           (replicate (MAX_TENSOR_DIM K) (unset_dim K)) = Inr d1"
    and g2: "read_at (dims in0) (?nd - 2) = Inr g2"
    and d2: "write_at d1 (?nd - 2) g2 = Inr d2"
    and g1: "read_at (dims in0) (?nd - 1) = Inr g1"
    and d3: "write_at d2 (?nd - 1) g1 = Inr d3"
    unfolding aggregate_output_dims_def Let_def by (auto dest!: ebind_Inr)
  from write_at_Inr [OF d2] have w2: "0 \<le> ?nd - 2" "nat (?nd - 2) < length d1"
      "d2 = d1[nat (?nd - 2) := g2]"
    by auto
  from write_at_Inr [OF d3] have w3: "nat (?nd - 1) < length d2" "d3 = d2[nat (?nd - 1) := g1]"
    by auto
  from g2 have r2: "g2 = dims in0 ! nat (?nd - 2)"
    by (auto simp: read_at_def split: if_splits)
  from g1 have r1: "g1 = dims in0 ! nat (?nd - 1)"
    by (auto simp: read_at_def split: if_splits)
  have ne: "nat (?nd - 2) \<noteq> nat (?nd - 1)"
    using w2(1) by linarith
  show "2 \<le> ?nd"
    using w2(1) by simp
  show "d3 ! nat (?nd - 2) = dims in0 ! nat (?nd - 2)"
    using w2 w3 r2 ne by simp
  show "d3 ! nat (?nd - 1) = dims in0 ! nat (?nd - 1)"
    using w3 r1 by simp
  show "d3 ! i = dims in4 ! i" if i: "int i < ?nd - 2" for i
  proof -
    have lt: "i < nat (?nd - 1)" and n2: "i \<noteq> nat (?nd - 2)" and n1: "i \<noteq> nat (?nd - 1)"
      using i by linarith+
    from copy_loop_Inr [OF d1] lt have "d1 ! i = dims in4 ! nat (int i)"
      by blast
    then show ?thesis
      using w2(3) w3(2) n2 n1 by simp
  qed
qed

lemma Aggregate_ctor_Inr:
  assumes "Aggregate_ctor K model this ins n lam name = Inr (op, model')"
  shows "\<exists>d3 out.
    aggregate_output_dims K (ins ! 0) (ins ! 4) = Inr d3 \<and>
    create_parallel_tensor_legion_ordering K model (num_dims (ins ! 4)) d3 DT_FLOAT
      (Some this) 0 True 0 = Inr (out, model') \<and>
    outputs op = [out] \<and> numOutputs op = 1"
proof -
  from assms obtain op0 in4 in0 d3 out where
    op0: "Op_ctor this OP_AGGREGATE DT_FLOAT name (n + 4) 0 1 ins = Inr op0"
    and in4: "input_at (op0\<lparr>derived := AggregateData n lam\<rparr>) 4 = Inr in4"
    and in0: "input_at (op0\<lparr>derived := AggregateData n lam\<rparr>) 0 = Inr in0"
    and d3: "aggregate_output_dims K in0 in4 = Inr d3"
    and out: "create_parallel_tensor_legion_ordering K model (num_dims in4) d3 DT_FLOAT
      (Some this) 0 True 0 = Inr (out, model')"
    and op: "outputs op = [out]" "numOutputs op = 1"
    unfolding Aggregate_ctor_def Let_def
    by (auto dest!: ebind_Inr split: if_splits prod.splits)
  from input_at_Inr [OF in4] have k4: "4 < length (inputs op0)" "in4 = inputs op0 ! 4"
    by simp_all
  from input_at_Inr [OF in0] have k0: "0 < length (inputs op0)" "in0 = inputs op0 ! 0"
    by simp_all
  have "in4 = ins ! 4"
    using Op_ctor_Inr(4) [OF op0, of 4] Op_ctor_Inr(1) [OF op0] k4 by simp
  moreover have "in0 = ins ! 0"
    using Op_ctor_Inr(4) [OF op0, of 0] Op_ctor_Inr(1) [OF op0] k0 by simp
  ultimately show ?thesis
    using d3 out op by blast
qed

lemma aggregate_output_general:
  assumes ok: "Aggregate_ctor K model this ins n lam name = Inr (op, model')"
  shows "numOutputs op = 1 \<and>
    (\<exists>out. outputs op = [out] \<and> num_dims out = num_dims (ins ! 4) \<and> data_type out = DT_FLOAT \<and>
       (\<forall>i. int i < num_dims (ins ! 4) - 2 \<longrightarrow> dims out ! i = dims (ins ! 4) ! i) \<and>
       dims out ! nat (num_dims (ins ! 4) - 2) = dims (ins ! 0) ! nat (num_dims (ins ! 4) - 2) \<and>
       dims out ! nat (num_dims (ins ! 4) - 1) = dims (ins ! 0) ! nat (num_dims (ins ! 4) - 1))"
proof -
  let ?nd = "num_dims (ins ! 4)"
  from Aggregate_ctor_Inr [OF ok] obtain d3 out where
    d3: "aggregate_output_dims K (ins ! 0) (ins ! 4) = Inr d3"
    and out: "create_parallel_tensor_legion_ordering K model ?nd d3 DT_FLOAT
      (Some this) 0 True 0 = Inr (out, model')"
    and op: "outputs op = [out]" "numOutputs op = 1"
    by blast
  note shape = aggregate_output_dims_Inr [OF d3]
  note made = create_parallel_tensor_legion_ordering_Inr [OF out]
  have nd: "2 \<le> ?nd"
    by (rule shape(1))
  have a: "dims out ! i = dims (ins ! 4) ! i" if "int i < ?nd - 2" for i
  proof -
    have "i < nat ?nd"
      using that by linarith
    then show ?thesis
      using made(4) [of i] shape(2) [OF that] by simp
  qed
  have b: "dims out ! nat (?nd - 2) = dims (ins ! 0) ! nat (?nd - 2)"
  proof -
    have "nat (?nd - 2) < nat ?nd"
      using nd by linarith
    then show ?thesis
      using made(4) [of "nat (?nd - 2)"] shape(3) by simp
  qed
  have c: "dims out ! nat (?nd - 1) = dims (ins ! 0) ! nat (?nd - 1)"
  proof -
    have "nat (?nd - 1) < nat ?nd"
      using nd by linarith
    then show ?thesis
      using made(4) [of "nat (?nd - 1)"] shape(4) by simp
  qed
  show ?thesis
  proof (intro conjI exI [of _ out] allI impI)
    show "numOutputs op = 1" by (rule op)
    show "outputs op = [out]" by (rule op)
    show "num_dims out = ?nd" by (rule made(2))
    show "data_type out = DT_FLOAT" by (rule made(3))
    show "dims out ! nat (?nd - 2) = dims (ins ! 0) ! nat (?nd - 2)" by (rule b)
    show "dims out ! nat (?nd - 1) = dims (ins ! 0) ! nat (?nd - 1)" by (rule c)
  next
    fix i assume "int i < ?nd - 2"
    then show "dims out ! i = dims (ins ! 4) ! i" by (rule a)
  qed
qed

lemma s2_shape: "output_shape s2_aggregate = Some ([16, 8, 1], DT_FLOAT)"
  by code_simp

text \<open>
  C7: the one output of a constructed aggregate operator has the \<open>num_dim\<close> dimensions of the
  first expert input; its dimensions below \<open>num_dim - 2\<close> are those of the first expert input
  and its last two are the dimensions of \<open>gate_preds\<close> at the same indices. In scenario S2
  the output shape is [16, 8, 1] and the element type is float.
\<close>

theorem aggregate_output_shape:
  "(Aggregate_ctor K model this ins n lam name = Inr (op, model') \<longrightarrow>
    numOutputs op = 1 \<and>
    (\<exists>out. outputs op = [out] \<and> num_dims out = num_dims (ins ! 4) \<and> data_type out = DT_FLOAT \<and>
       (\<forall>i. int i < num_dims (ins ! 4) - 2 \<longrightarrow> dims out ! i = dims (ins ! 4) ! i) \<and>
       dims out ! nat (num_dims (ins ! 4) - 2) = dims (ins ! 0) ! nat (num_dims (ins ! 4) - 2) \<and>
       dims out ! nat (num_dims (ins ! 4) - 1) = dims (ins ! 0) ! nat (num_dims (ins ! 4) - 1))) \<and>
   output_shape s2_aggregate = Some ([16, 8, 1], DT_FLOAT)"
proof (rule conjI, rule impI)
  assume "Aggregate_ctor K model this ins n lam name = Inr (op, model')"
  then show "numOutputs op = 1 \<and>
    (\<exists>out. outputs op = [out] \<and> num_dims out = num_dims (ins ! 4) \<and> data_type out = DT_FLOAT \<and>
       (\<forall>i. int i < num_dims (ins ! 4) - 2 \<longrightarrow> dims out ! i = dims (ins ! 4) ! i) \<and>
       dims out ! nat (num_dims (ins ! 4) - 2) = dims (ins ! 0) ! nat (num_dims (ins ! 4) - 2) \<and>
       dims out ! nat (num_dims (ins ! 4) - 1) = dims (ins ! 0) ! nat (num_dims (ins ! 4) - 1))"
    by (rule aggregate_output_general)
next
  show "output_shape s2_aggregate = Some ([16, 8, 1], DT_FLOAT)"
    by (rule s2_shape)
qed

theorem aggregate_output_shape_witness:
  "\<exists>op m'. Aggregate_ctor K_example s2_model 100 s2_inputs 3 (1 / 10) ''aggregate'' = Inr (op, m') \<and>
     numOutputs op = 1 \<and>
     (\<exists>out. outputs op = [out] \<and> num_dims out = 3 \<and> data_type out = DT_FLOAT \<and>
        dims out ! 0 = plain_dim 16 \<and> dims out ! 1 = plain_dim 8 \<and> dims out ! 2 = replica_dim)"
proof -
  have "output_shape s2_aggregate \<noteq> None"
    using aggregate_output_shape [THEN conjunct2] by simp
  then obtain op m' where
    r: "Aggregate_ctor K_example s2_model 100 s2_inputs 3 (1 / 10) ''aggregate'' = Inr (op, m')"
    unfolding output_shape_def s2_aggregate_def by (auto split: sum.splits)
  note inst = aggregate_output_shape [THEN conjunct1, THEN mp, OF r]
  from inst obtain out where o: "outputs op = [out]" "num_dims out = num_dims (s2_inputs ! 4)"
      "data_type out = DT_FLOAT"
      "\<forall>i. int i < num_dims (s2_inputs ! 4) - 2 \<longrightarrow> dims out ! i = dims (s2_inputs ! 4) ! i"
      "dims out ! nat (num_dims (s2_inputs ! 4) - 2) =
         dims (s2_inputs ! 0) ! nat (num_dims (s2_inputs ! 4) - 2)"
      "dims out ! nat (num_dims (s2_inputs ! 4) - 1) =
         dims (s2_inputs ! 0) ! nat (num_dims (s2_inputs ! 4) - 1)"
    by blast
  have n: "num_dims (s2_inputs ! 4) = 3"
    by (simp add: s2_inputs_def example_tensor_def)
  have d0: "dims out ! 0 = plain_dim 16"
    using o(4) [rule_format, of 0] n by (simp add: s2_inputs_def example_tensor_def)
  have d1: "dims out ! 1 = plain_dim 8"
    using o(5) n by (simp add: s2_inputs_def example_tensor_def)
  have d2: "dims out ! 2 = replica_dim"
    using o(6) n by (simp add: s2_inputs_def example_tensor_def)
  from inst have "numOutputs op = 1"
    by (rule conjunct1)
  with r o n d0 d1 d2 show ?thesis
    by (intro exI [of _ op] exI [of _ m'] conjI exI [of _ out]) simp_all
qed

subsection \<open>Cost measurement\<close>

text \<open>
  The simulator, the sub-tensor computation and the kernel timing are external collaborators:
  their operations are parameters. \<open>allocate\<close> answers whether the pointer it returns is
  not null. The extents \<open>k\<close>, \<open>batch_size\<close>, \<open>rows\<close> and \<open>out_dim\<close> that the code reads
  from the domains only feed the kernel closure that \<open>inner_measure_operator_cost\<close> times.
\<close>

record CostMetrics =
  forward_time :: real
  backward_time :: real
  inputs_memory :: int
  outputs_memory :: int

record 'sim CostOracles =
  MAX_NUM_INPUTS :: int
  MAXIMUM_TASK_RUN_TIME :: real
  get_sub_tensor :: "MachineView \<Rightarrow> ParallelTensorBase \<Rightarrow> ParallelTensorBase option"
  get_volume :: "ParallelTensorBase \<Rightarrow> int"
  meta_profiling :: bool
  free_all :: "'sim \<Rightarrow> 'sim"
  allocate :: "'sim \<Rightarrow> int \<Rightarrow> DataType \<Rightarrow> bool \<times> 'sim"
  total_mem_diff_from :: "CostMetrics \<Rightarrow> 'sim \<Rightarrow> int"
  inner_measure_operator_cost :: "'sim \<Rightarrow> CostMetrics \<Rightarrow> CostMetrics \<times> 'sim"

text \<open>
  A loop that fills an array and leaves the function with \<open>return false\<close> (the value
  \<open>None\<close>) as soon as one step answers false.
\<close>

fun sub_tensor_loop :: "nat list \<Rightarrow> (nat \<Rightarrow> error + 'a option) \<Rightarrow> error + 'a list option" where
  "sub_tensor_loop [] f = Inr (Some [])"
| "sub_tensor_loop (i # rest) f =
     ebind (f i) (\<lambda>r.
       case r of
         None \<Rightarrow> Inr None
       | Some v \<Rightarrow> ebind (sub_tensor_loop rest f) (\<lambda>rs. Inr (map_option ((#) v) rs)))"

text \<open>
  \<open>for (i = 0; i < numInputs; ++i) input_ptrs[i] = sim->allocate(...);
  out_of_memory = out_of_memory || (input_ptrs[i] == NULL)\<close>
\<close>

definition allocate_inputs ::
  "'sim CostOracles \<Rightarrow> ParallelTensorBase list \<Rightarrow> 'sim \<Rightarrow> bool \<times> 'sim" where
  "allocate_inputs S subs sim =
     fold (\<lambda>t (oom, s). let (ok, s') = allocate S s (get_volume S t) DT_FLOAT in (oom \<or> \<not> ok, s'))
       subs (False, sim)"

definition Aggregate_measure_operator_cost ::
  "'sim CostOracles \<Rightarrow> Op \<Rightarrow> 'sim \<Rightarrow> MachineView \<Rightarrow> CostMetrics \<Rightarrow>
   error + (bool \<times> CostMetrics \<times> 'sim)" where
  "Aggregate_measure_operator_cost S op sim mv cost_metrics =
     ebind (assert_that (numInputs op \<le> MAX_NUM_INPUTS S)) (\<lambda>_.
     ebind (sub_tensor_loop [0..<nat (numInputs op)] (\<lambda>i.
              ebind (input_at op (int i + 4)) (\<lambda>t. Inr (get_sub_tensor S mv t)))) (\<lambda>subs.
     case subs of
       None \<Rightarrow> Inr (False, cost_metrics, sim)
     | Some sub_inputs \<Rightarrow>
     ebind (input_at op 0) (\<lambda>in0.
     case get_sub_tensor S mv in0 of
       None \<Rightarrow> Inr (False, cost_metrics, sim)
     | Some sub_pred \<Rightarrow>
     ebind (input_at op 1) (\<lambda>in1.
     case get_sub_tensor S mv in1 of
       None \<Rightarrow> Inr (False, cost_metrics, sim)
     | Some sub_assign \<Rightarrow>
     ebind (output_at op 0) (\<lambda>out0.
     case get_sub_tensor S mv out0 of
       None \<Rightarrow> Inr (False, cost_metrics, sim)
     | Some sub_output \<Rightarrow>
       let sim1 = free_all S sim;
           (oom1, sim2) = allocate_inputs S sub_inputs sim1;
           (ok_assign, sim3) = allocate S sim2 (get_volume S sub_assign) DT_INT32;
           (ok_pred, sim4) = allocate S sim3 (get_volume S sub_pred) DT_FLOAT;
           cm1 = cost_metrics\<lparr>inputs_memory :=
                   inputs_memory cost_metrics + total_mem_diff_from S cost_metrics sim4\<rparr>;
           (ok_output, sim5) = allocate S sim4 (get_volume S sub_output) DT_FLOAT;
           cm2 = cm1\<lparr>outputs_memory := outputs_memory cm1 + total_mem_diff_from S cm1 sim5\<rparr>;
           out_of_memory = (oom1 \<or> \<not> ok_assign \<or> \<not> ok_pred \<or> \<not> ok_output)
       in
       if out_of_memory
       then Inr (True, cm2\<lparr>forward_time := MAXIMUM_TASK_RUN_TIME S,
                            backward_time := MAXIMUM_TASK_RUN_TIME S\<rparr>, sim5)
       else
         ebind (assert_that (meta_profiling S = False)) (\<lambda>_.
         let (cm3, sim6) = inner_measure_operator_cost S sim5 cm2
         in Inr (True, cm3\<lparr>backward_time := 0\<rparr>, sim6)))))))"

text \<open>
  A simulator for the examples: the state is the offset of a bump allocator of 1000 bytes,
  every tensor has a sub-tensor, and a kernel run takes one time unit.
\<close>

definition example_oracles :: "int CostOracles" where
  "example_oracles =
     \<lparr>MAX_NUM_INPUTS = 256, MAXIMUM_TASK_RUN_TIME = 1000000,
      get_sub_tensor = (\<lambda>mv t. Some t),
      get_volume = (\<lambda>t. prod_list (map size_dim (take (nat (num_dims t)) (dims t)))),
      meta_profiling = False,
      free_all = (\<lambda>s. 0),
      allocate = (\<lambda>s n dt. (s + 4 * n \<le> 1000000, s + 4 * n)),
      total_mem_diff_from = (\<lambda>cm s. s - inputs_memory cm - outputs_memory cm),
      inner_measure_operator_cost = (\<lambda>s cm. (cm\<lparr>forward_time := 1\<rparr>, s))\<rparr>"

definition zero_cost :: CostMetrics where
  "zero_cost = \<lparr>forward_time = 0, backward_time = 0, inputs_memory = 0, outputs_memory = 0\<rparr>"

definition s2_measure :: "error + (bool \<times> CostMetrics \<times> int)" where
  "s2_measure =
     (case s2_aggregate of
        Inl e \<Rightarrow> Inl e
      | Inr (op, m) \<Rightarrow> Aggregate_measure_operator_cost example_oracles op 0 [1] zero_cost)"

lemma s2_measure_value: "s2_measure = Inl InvalidPointer"
  by code_simp

lemma sub_tensor_loop_Some:
  "sub_tensor_loop ns f = Inr (Some vs) \<Longrightarrow> \<forall>i\<in>set ns. \<exists>v. f i = Inr (Some v)"
proof (induction ns arbitrary: vs)
  case Nil
  then show ?case by simp
next
  case (Cons n ns)
  from Cons.prems obtain r where r: "f n = Inr r"
    and rest: "(case r of None \<Rightarrow> Inr None
                | Some v \<Rightarrow> ebind (sub_tensor_loop ns f) (\<lambda>rs. Inr (map_option ((#) v) rs)))
               = Inr (Some vs)"
    by (auto dest!: ebind_Inr)
  from rest obtain v where v: "r = Some v"
    and more: "ebind (sub_tensor_loop ns f) (\<lambda>rs. Inr (map_option ((#) v) rs)) = Inr (Some vs)"
    by (cases r) simp_all
  from more obtain ws where "sub_tensor_loop ns f = Inr (Some ws)"
    by (auto dest!: ebind_Inr)
  from Cons.IH [OF this] r v show ?case
    by simp
qed

lemma measure_operator_cost_True:
  assumes "Aggregate_measure_operator_cost S op sim mv cm = Inr (True, cm', sim')"
  shows "\<exists>subs. sub_tensor_loop [0..<nat (numInputs op)] (\<lambda>i.
              ebind (input_at op (int i + 4)) (\<lambda>t. Inr (get_sub_tensor S mv t))) = Inr (Some subs)"
  using assms unfolding Aggregate_measure_operator_cost_def
  by (auto dest!: ebind_Inr split: option.splits)

lemma measure_operator_cost_reads_past_inputs:
  assumes len: "length (inputs op) = nat (numInputs op)" and pos: "0 < numInputs op"
  shows "Aggregate_measure_operator_cost S op sim mv cm \<noteq> Inr (True, cm', sim')"
proof
  assume "Aggregate_measure_operator_cost S op sim mv cm = Inr (True, cm', sim')"
  from measure_operator_cost_True [OF this] obtain subs where
    "sub_tensor_loop [0..<nat (numInputs op)] (\<lambda>i.
       ebind (input_at op (int i + 4)) (\<lambda>t. Inr (get_sub_tensor S mv t))) = Inr (Some subs)"
    by blast
  from sub_tensor_loop_Some [OF this] pos
  obtain v where "ebind (input_at op (int (nat (numInputs op) - 1) + 4))
      (\<lambda>t. Inr (get_sub_tensor S mv t)) = Inr (Some v)"
    by (auto dest: bspec [where x = "nat (numInputs op) - 1"])
  then obtain t where "input_at op (int (nat (numInputs op) - 1) + 4) = Inr t"
    by (auto dest!: ebind_Inr)
  from input_at_Inr [OF this] len pos show False
    by simp
qed

lemma Aggregate_ctor_inputs:
  assumes "Aggregate_ctor K model this ins n lam name = Inr (op, model')"
  shows "length (inputs op) = nat (numInputs op)" and "numInputs op = n + 4" and "0 < n"
proof -
  from assms obtain op0 where
    op0: "Op_ctor this OP_AGGREGATE DT_FLOAT name (n + 4) 0 1 ins = Inr op0"
    and g: "aggregate_gate_checks K (op0\<lparr>derived := AggregateData n lam\<rparr>) n = Inr ()"
    and op: "inputs op = inputs op0" "numInputs op = numInputs op0"
    unfolding Aggregate_ctor_def Let_def
    by (auto dest!: ebind_Inr split: if_splits prod.splits)
  show "length (inputs op) = nat (numInputs op)" "numInputs op = n + 4"
    using Op_ctor_Inr(1,2) [OF op0] op by simp_all
  show "0 < n"
    using g unfolding aggregate_gate_checks_def
    by (auto dest!: ebind_Inr assert_that_Inr)
qed

text \<open>
  C8 (what the code does instead): the first loop of \<open>measure_operator_cost\<close> runs over
  \<open>i < numInputs\<close> and reads \<open>inputs[i + 4]\<close>, so for every operator that the constructor
  builds it ends by reading a slot past the \<open>n + 4\<close> inputs or returns false before that: it
  never returns true.
\<close>

theorem measure_operator_cost_never_true:
  assumes "Aggregate_ctor K model this ins n lam name = Inr (op, model')"
  shows "Aggregate_measure_operator_cost S op sim mv cm \<noteq> Inr (True, cm', sim')"
proof -
  have "0 < numInputs op"
    using Aggregate_ctor_inputs(2,3) [OF assms] by simp
  with Aggregate_ctor_inputs(1) [OF assms] show ?thesis
    by (rule measure_operator_cost_reads_past_inputs)
qed

theorem measure_operator_cost_never_true_witness:
  "\<exists>op m. Aggregate_ctor K_example s2_model 100 s2_inputs 3 (1 / 10) ''aggregate'' = Inr (op, m) \<and>
     numInputs op = 7 \<and>
     Aggregate_measure_operator_cost example_oracles op 0 [1] zero_cost = Inl InvalidPointer \<and>
     Aggregate_measure_operator_cost example_oracles op 0 [1] zero_cost
       \<noteq> Inr (True, zero_cost, 0)"
proof -
  have "output_shape s2_aggregate \<noteq> None"
    using s2_shape by simp
  then obtain op m where
    r: "Aggregate_ctor K_example s2_model 100 s2_inputs 3 (1 / 10) ''aggregate'' = Inr (op, m)"
    unfolding output_shape_def s2_aggregate_def by (auto split: sum.splits)
  have n: "numInputs op = 7"
    using Aggregate_ctor_inputs(2) [OF r] by simp
  have v: "Aggregate_measure_operator_cost example_oracles op 0 [1] zero_cost = Inl InvalidPointer"
    using s2_measure_value r by (simp add: s2_measure_def s2_aggregate_def)
  have t: "Aggregate_measure_operator_cost example_oracles op 0 [1] zero_cost
       \<noteq> Inr (True, zero_cost, 0)"
    by (rule measure_operator_cost_never_true [OF r])
  from r n v t show ?thesis
    by blast
qed


section \<open>The search over parallel configurations\<close>

text \<open>
  An assignment is a map from operators (by address) to parallel configurations. The random
  number generator, the random configuration of an operator, the propagation mutator (it is
  compiled only under \<open>FF_USE_PROPAGATE\<close>) and the simulator are not among the sources: they
  are parameters. \<open>std_rand\<close> returns the value of \<open>std::rand()\<close>, which is not negative, and
  the next state of the generator. Costs are \<open>float\<close>s that the search only compares: the
  cost type is any linear order, which leaves out NaN, a value the simulator does not return.
  The two comparisons that depend on float arithmetic are parameters as well:
  \<open>below_propagation_chance r\<close> is \<open>r / RAND_MAX < PROPAGATION_CHANCE\<close>, and
  \<open>metropolis r alpha c' c\<close> is \<open>r / RAND_MAX < exp(-alpha * (c' - c))\<close>.
\<close>

record ParallelConfig =
  nDims :: int
  dim :: "int list"
  device_ids :: "int list"

type_synonym assignment = "op_ptr \<rightharpoonup> ParallelConfig"

record ('c, 'g) SearchOracles =
  std_rand :: "'g \<Rightarrow> nat \<times> 'g"
  below_propagation_chance :: "nat \<Rightarrow> bool"
  propagate :: "assignment \<Rightarrow> 'g \<Rightarrow> assignment \<times> 'g"
  get_random_parallel_config :: "op_ptr \<Rightarrow> 'g \<Rightarrow> ParallelConfig \<times> 'g"
  simulate_runtime :: "assignment \<Rightarrow> 'c"
  metropolis :: "nat \<Rightarrow> real \<Rightarrow> 'c \<Rightarrow> 'c \<Rightarrow> bool"

text \<open>
  \<open>FFModel::rewrite\<close>, over the addresses \<open>ops\<close> of the operators of the model. With
  \<open>propagate_chance = 0\<close> the test \<open>randf() < propagate_chance\<close> fails for every value of
  \<open>std::rand()\<close>. \<open>std::rand() % operators.size()\<close> divides by zero when there is no
  operator.
\<close>

definition rewrite ::
  "('c, 'g) SearchOracles \<Rightarrow> op_ptr list \<Rightarrow> assignment \<Rightarrow> bool \<Rightarrow> 'g \<Rightarrow> error + (assignment \<times> 'g)" where
  "rewrite S ops cur use_propagation g =
     (let nxt = cur;
          (r, g1) = std_rand S g
      in
      if use_propagation \<and> below_propagation_chance S r
      then Inr (propagate S nxt g1)
      else
        let (r2, g2) = std_rand S g1 in
        if ops = [] then Inl DivisionByZero
        else
          let opId = r2 mod length ops in
          if opId = length ops - 1 then Inr (nxt, g2)
          else
            let (cfg, g3) = get_random_parallel_config S (ops ! opId) g2
            in Inr (nxt(ops ! opId \<mapsto> cfg), g3))"

text \<open>The state of the loop of \<open>FFModel::mcmc_optimize\<close>.\<close>

record ('c, 'g) mcmc_state =
  best :: assignment
  best_runtime :: 'c
  current :: assignment
  current_runtime :: 'c
  last_reset_iter :: nat
  gen :: 'g

definition reset_span_of :: "nat \<Rightarrow> nat" where
  "reset_span_of budget =
     (let reset_span = budget div 100;
          reset_span = (if reset_span = 0 then 1 else reset_span)
      in if 1000 < reset_span then 1000 else reset_span)"

definition mcmc_init :: "('c, 'g) SearchOracles \<Rightarrow> assignment \<Rightarrow> 'g \<Rightarrow> ('c, 'g) mcmc_state" where
  "mcmc_init S best0 g =
     \<lparr>best = best0, best_runtime = simulate_runtime S best0, current = best0,
      current_runtime = simulate_runtime S best0, last_reset_iter = 0, gen = g\<rparr>"

text \<open>
  The first half of the loop body: the periodic reset, the proposal and its simulated cost.
  It returns the state after the reset, the proposal, its cost and the generator.
\<close>

definition mcmc_proposal ::
  "('c, 'g) SearchOracles \<Rightarrow> op_ptr list \<Rightarrow> bool \<Rightarrow> nat \<Rightarrow> nat \<Rightarrow> ('c, 'g) mcmc_state \<Rightarrow>
   error + (('c, 'g) mcmc_state \<times> assignment \<times> 'c \<times> 'g)" where
  "mcmc_proposal S ops use_propagation reset_span iter st =
     (let st1 = (if reset_span \<le> iter - last_reset_iter st
                 then st\<lparr>current := best st, current_runtime := best_runtime st,
                         last_reset_iter := iter\<rparr>
                 else st)
      in
      ebind (rewrite S ops (current st1) use_propagation (gen st1)) (\<lambda>(nxt, g1).
      Inr (st1, nxt, simulate_runtime S nxt, g1)))"

text \<open>The second half: the best and the current assignment are updated.\<close>

definition mcmc_accept ::
  "('c::linorder, 'g) SearchOracles \<Rightarrow> real \<Rightarrow>
   ('c, 'g) mcmc_state \<times> assignment \<times> 'c \<times> 'g \<Rightarrow> ('c, 'g) mcmc_state" where
  "mcmc_accept S alpha p =
     (case p of (st1, nxt, next_runtime, g1) \<Rightarrow>
        let (r, g2) = std_rand S g1;
            st2 = (if next_runtime < best_runtime st1
                   then st1\<lparr>best_runtime := next_runtime, best := nxt\<rparr> else st1);
            st3 = (if next_runtime < current_runtime st2
                   then st2\<lparr>current := nxt, current_runtime := next_runtime\<rparr>
                   else if metropolis S r alpha next_runtime (current_runtime st2)
                   then st2\<lparr>current := nxt, current_runtime := next_runtime\<rparr>
                   else st2)
        in st3\<lparr>gen := g2\<rparr>)"

definition mcmc_step ::
  "('c::linorder, 'g) SearchOracles \<Rightarrow> op_ptr list \<Rightarrow> real \<Rightarrow> bool \<Rightarrow> nat \<Rightarrow> nat \<Rightarrow>
   ('c, 'g) mcmc_state \<Rightarrow> error + ('c, 'g) mcmc_state" where
  "mcmc_step S ops alpha use_propagation reset_span iter st =
     ebind (mcmc_proposal S ops use_propagation reset_span iter st) (\<lambda>p.
     Inr (mcmc_accept S alpha p))"

text \<open>The state after the iterations \<open>0, ..., k - 1\<close>.\<close>

definition mcmc_after ::
  "('c::linorder, 'g) SearchOracles \<Rightarrow> op_ptr list \<Rightarrow> assignment \<Rightarrow> nat \<Rightarrow> real \<Rightarrow> bool \<Rightarrow> 'g \<Rightarrow>
   nat \<Rightarrow> error + ('c, 'g) mcmc_state" where
  "mcmc_after S ops best0 budget alpha use_propagation g k =
     for_fold [0..<k] (mcmc_step S ops alpha use_propagation (reset_span_of budget))
       (mcmc_init S best0 g)"

text \<open>
  \<open>FFModel::mcmc_optimize\<close>. The loop \<open>for (iter = 0; iter <= budget; iter++)\<close> over
  \<open>size_t\<close> never ends when \<open>budget\<close> is the largest value: the result is then \<open>None\<close>.
  What follows the loop prints the best assignment and does not change it.
\<close>

definition mcmc_optimize ::
  "('c::linorder, 'g) SearchOracles \<Rightarrow> op_ptr list \<Rightarrow> assignment \<Rightarrow> size_t \<Rightarrow> real \<Rightarrow> bool \<Rightarrow> 'g \<Rightarrow>
   (error + ('c, 'g) mcmc_state) option" where
  "mcmc_optimize S ops best0 budget alpha use_propagation g =
     (if budget = - 1 then None
      else Some (mcmc_after S ops best0 (unat budget) alpha use_propagation g
                   (Suc (unat budget))))"

text \<open>The costs of the proposals of the iterations \<open>ns\<close>, started in \<open>st\<close>.\<close>

fun seen_costs ::
  "('c::linorder, 'g) SearchOracles \<Rightarrow> op_ptr list \<Rightarrow> real \<Rightarrow> bool \<Rightarrow> nat \<Rightarrow> nat list \<Rightarrow>
   ('c, 'g) mcmc_state \<Rightarrow> 'c list" where
  "seen_costs S ops alpha up rs [] st = []"
| "seen_costs S ops alpha up rs (i # rest) st =
     (case mcmc_proposal S ops up rs i st of
        Inl e \<Rightarrow> []
      | Inr p \<Rightarrow> fst (snd (snd p)) # seen_costs S ops alpha up rs rest (mcmc_accept S alpha p))"

text \<open>
  An instance for the examples: the generator is the list of the values it will return (then
  zeros), the random configuration of an operator splits one dimension by the value drawn,
  and the cost of an assignment is the sum of the degrees it assigns to operators 1, 2, 3.
\<close>

definition pop_rand :: "nat list \<Rightarrow> nat \<times> nat list" where
  "pop_rand g = (case g of [] \<Rightarrow> (0, []) | r # rest \<Rightarrow> (r, rest))"

definition config_of_degree :: "int \<Rightarrow> ParallelConfig" where
  "config_of_degree d = \<lparr>nDims = 1, dim = [d], device_ids = [0..d - 1]\<rparr>"

definition example_cost :: "assignment \<Rightarrow> int" where
  "example_cost a =
     sum_list (map (\<lambda>p. case a p of None \<Rightarrow> 10 | Some c \<Rightarrow> sum_list (dim c)) [1, 2, 3])"

definition example_search :: "(int, nat list) SearchOracles" where
  "example_search =
     \<lparr>std_rand = pop_rand,
      below_propagation_chance = (\<lambda>r. r < 100),
      propagate = (\<lambda>a g. (a, g)),
      get_random_parallel_config =
        (\<lambda>p g. (config_of_degree (1 + int (fst (pop_rand g)) mod 4), snd (pop_rand g))),
      simulate_runtime = example_cost,
      metropolis = (\<lambda>r alpha c' c. False)\<rparr>"

definition example_current :: assignment where
  "example_current = [1 \<mapsto> config_of_degree 4, 2 \<mapsto> config_of_degree 4]"

definition example_rands :: "nat list" where
  "example_rands = [0, 0, 1, 0, 0, 1, 2, 0, 0, 2, 0, 0, 0, 0, 0]"

subsection \<open>The mutation\<close>

lemma rewrite_default:
  assumes dflt: "\<not> (use_propagation \<and> below_propagation_chance S (fst (std_rand S g)))"
    and ne: "ops \<noteq> []"
  shows "rewrite S ops cur use_propagation g =
     (let g1 = snd (std_rand S g);
          opId = fst (std_rand S g1) mod length ops;
          g2 = snd (std_rand S g1)
      in if opId = length ops - 1 then Inr (cur, g2)
         else Inr (cur(ops ! opId \<mapsto> fst (get_random_parallel_config S (ops ! opId) g2)),
                   snd (get_random_parallel_config S (ops ! opId) g2)))"
  using dflt ne by (auto simp add: rewrite_def Let_def case_prod_beta)

text \<open>
  C3, as the code has it: on the default path \<open>rewrite\<close> draws \<open>opId = rand() mod n\<close> among
  all \<open>n\<close> operators. When it draws the last index it returns the assignment unchanged;
  otherwise it replaces the entry of that operator by its random configuration. Every other
  entry is unchanged, and the entry of the terminal operator is never changed (the operators
  are distinct).
\<close>

theorem rewrite_default_path:
  assumes dflt: "\<not> (use_propagation \<and> below_propagation_chance S (fst (std_rand S g)))"
    and ne: "ops \<noteq> []"
  shows "\<exists>nxt g'. rewrite S ops cur use_propagation g = Inr (nxt, g') \<and>
     (let g1 = snd (std_rand S g);
          opId = fst (std_rand S g1) mod length ops;
          g2 = snd (std_rand S g1)
      in (opId = length ops - 1 \<longrightarrow> nxt = cur) \<and>
         (opId \<noteq> length ops - 1 \<longrightarrow>
            nxt = cur(ops ! opId \<mapsto> fst (get_random_parallel_config S (ops ! opId) g2))) \<and>
         (\<forall>p. p \<noteq> ops ! opId \<longrightarrow> nxt p = cur p) \<and>
         (distinct ops \<longrightarrow> nxt (last ops) = cur (last ops)))"
proof -
  define opId where "opId = fst (std_rand S (snd (std_rand S g))) mod length ops"
  have lt: "opId < length ops"
    using ne by (simp add: opId_def)
  have last: "ops ! opId \<noteq> last ops" if "distinct ops" "opId \<noteq> length ops - 1"
  proof -
    have "last ops = ops ! (length ops - 1)"
      using ne by (rule last_conv_nth)
    moreover have "length ops - 1 < length ops"
      using ne by simp
    ultimately show ?thesis
      using that lt by (simp add: nth_eq_iff_index_eq)
  qed
  show ?thesis
  proof (cases "opId = length ops - 1")
    case True
    then show ?thesis
      using rewrite_default [OF dflt ne, of cur] by (simp add: Let_def opId_def)
  next
    case False
    then show ?thesis
      using rewrite_default [OF dflt ne, of cur] last by (auto simp add: Let_def opId_def)
  qed
qed

theorem rewrite_default_path_witness:
  "\<not> (False \<and> below_propagation_chance example_search (fst (std_rand example_search [0, 0, 1]))) \<and>
   [1, 2, 3] \<noteq> ([] :: op_ptr list) \<and>
   rewrite example_search [1, 2, 3] example_current False [0, 0, 1] =
     Inr (example_current(1 \<mapsto> config_of_degree 2), []) \<and>
   (example_current(1 \<mapsto> config_of_degree 2)) 3 = example_current 3 \<and>
   (\<exists>nxt g'. rewrite example_search [1, 2, 3] example_current False [0, 2, 1] = Inr (nxt, g') \<and>
      nxt = example_current)"
proof -
  have ne: "[1, 2, 3] \<noteq> ([] :: op_ptr list)"
    by simp
  have d: "\<not> (False \<and> below_propagation_chance example_search (fst (std_rand example_search g)))"
    for g
    by simp
  have v: "rewrite example_search [1, 2, 3] example_current False [0, 0, 1] =
     Inr (example_current(1 \<mapsto> config_of_degree 2), [])"
    by (simp add: rewrite_def example_search_def pop_rand_def Let_def)
  have f: "(example_current(1 \<mapsto> config_of_degree 2)) 3 = example_current 3"
    by simp
  from rewrite_default_path [where S = example_search and g = "[0, 2, 1]"
      and cur = example_current and ops = "[1, 2, 3]" and use_propagation = False, OF d ne]
  obtain nxt g' where
    r: "rewrite example_search [1, 2, 3] example_current False [0, 2, 1] = Inr (nxt, g')"
    and n: "fst (std_rand example_search (snd (std_rand example_search [0, 2, 1]))) mod
              length [1 :: op_ptr, 2, 3] = length [1 :: op_ptr, 2, 3] - 1 \<longrightarrow> nxt = example_current"
    unfolding Let_def by blast
  have "fst (std_rand example_search (snd (std_rand example_search [0, 2, 1]))) mod
              length [1 :: op_ptr, 2, 3] = length [1 :: op_ptr, 2, 3] - 1"
    by (simp add: example_search_def pop_rand_def)
  with n have "nxt = example_current"
    by (rule mp)
  with r have e: "\<exists>nxt g'. rewrite example_search [1, 2, 3] example_current False [0, 2, 1]
      = Inr (nxt, g') \<and> nxt = example_current"
    by blast
  show ?thesis
    by (intro conjI) (rule d ne v f e)+
qed

text \<open>
  The claim as stated, that the default path replaces the configuration of some non-terminal
  operator, fails when the draw is the terminal index: nothing is replaced, neither for
  operator 1 nor for operator 2, the non-terminal ones.
\<close>

theorem rewrite_terminal_draw_counterexample:
  "rewrite example_search [1, 2, 3] example_current False [0, 2, 1] = Inr (example_current, [1]) \<and>
   rewrite example_search [1, 2, 3] example_current False [0, 2, 1] \<noteq>
     Inr (example_current(1 \<mapsto> fst (get_random_parallel_config example_search 1 [1])), [1]) \<and>
   rewrite example_search [1, 2, 3] example_current False [0, 2, 1] \<noteq>
     Inr (example_current(2 \<mapsto> fst (get_random_parallel_config example_search 2 [1])), [1])"
proof -
  have v: "rewrite example_search [1, 2, 3] example_current False [0, 2, 1]
      = Inr (example_current, [1])"
    by (simp add: rewrite_def example_search_def pop_rand_def Let_def)
  have c: "fst (get_random_parallel_config example_search p [1]) = config_of_degree 2" for p
    by (simp add: example_search_def pop_rand_def)
  have n1: "example_current \<noteq> example_current(1 \<mapsto> config_of_degree 2)"
  proof
    assume eq: "example_current = example_current(1 \<mapsto> config_of_degree 2)"
    from fun_cong [OF eq, of 1] show False
      by (simp add: example_current_def config_of_degree_def)
  qed
  have n2: "example_current \<noteq> example_current(2 \<mapsto> config_of_degree 2)"
  proof
    assume eq: "example_current = example_current(2 \<mapsto> config_of_degree 2)"
    from fun_cong [OF eq, of 2] show False
      by (simp add: example_current_def config_of_degree_def)
  qed
  from n1 n2 show ?thesis
    unfolding v c by simp
qed

subsection \<open>The best cost of the search\<close>

lemma mcmc_accept_best:
  "best_runtime (mcmc_accept S alpha (st1, nxt, c, g1)) = min (best_runtime st1) c"
  by (auto simp add: mcmc_accept_def Let_def case_prod_beta min_def)

lemma mcmc_proposal_best:
  assumes "mcmc_proposal S ops up rs i st = Inr (st1, nxt, c, g1)"
  shows "best_runtime st1 = best_runtime st"
  using assms unfolding mcmc_proposal_def Let_def
  by (auto dest!: ebind_Inr split: if_splits)

lemma mcmc_step_Inr:
  assumes "mcmc_step S ops alpha up rs i st = Inr st'"
  shows "\<exists>p. mcmc_proposal S ops up rs i st = Inr p \<and> st' = mcmc_accept S alpha p \<and>
    best_runtime st' = min (best_runtime st) (fst (snd (snd p)))"
proof -
  from assms obtain p where p: "mcmc_proposal S ops up rs i st = Inr p"
    and st': "st' = mcmc_accept S alpha p"
    unfolding mcmc_step_def by (auto dest!: ebind_Inr)
  obtain st1 nxt c g1 where q: "p = (st1, nxt, c, g1)"
    by (cases p)
  from p q have "best_runtime st1 = best_runtime st"
    by (auto dest: mcmc_proposal_best)
  with st' q have "best_runtime st' = min (best_runtime st) (fst (snd (snd p)))"
    by (simp add: mcmc_accept_best)
  with p st' show ?thesis
    by blast
qed

lemma Min_insert_min:
  fixes b c :: "'c::linorder"
  assumes "finite A"
  shows "Min (insert (min b c) A) = Min (insert b (insert c A))"
proof (cases "A = {}")
  case True
  then show ?thesis by (simp add: min.commute)
next
  case False
  with assms show ?thesis
    by (simp add: min.assoc)
qed

lemma mcmc_run_best:
  assumes "for_fold ns (mcmc_step S ops alpha up rs) st = Inr st'"
  shows "best_runtime st' =
    Min (insert (best_runtime st) (set (seen_costs S ops alpha up rs ns st)))"
  using assms
proof (induction ns arbitrary: st)
  case Nil
  then show ?case by simp
next
  case (Cons i ns)
  from Cons.prems obtain st1 where s1: "mcmc_step S ops alpha up rs i st = Inr st1"
    and rest: "for_fold ns (mcmc_step S ops alpha up rs) st1 = Inr st'"
    by (auto dest!: ebind_Inr)
  from mcmc_step_Inr [OF s1] obtain p where p: "mcmc_proposal S ops up rs i st = Inr p"
    and a: "st1 = mcmc_accept S alpha p"
    and b: "best_runtime st1 = min (best_runtime st) (fst (snd (snd p)))"
    by blast
  have "best_runtime st' =
      Min (insert (best_runtime st1) (set (seen_costs S ops alpha up rs ns st1)))"
    by (rule Cons.IH [OF rest])
  also have "\<dots> = Min (insert (best_runtime st)
      (insert (fst (snd (snd p))) (set (seen_costs S ops alpha up rs ns st1))))"
    unfolding b by (rule Min_insert_min) simp
  also have "insert (fst (snd (snd p))) (set (seen_costs S ops alpha up rs ns st1)) =
      set (seen_costs S ops alpha up rs (i # ns) st)"
    using p a by simp
  finally show ?case .
qed

lemma rewrite_total:
  assumes "ops \<noteq> []"
  shows "\<exists>r. rewrite S ops cur up g = Inr r"
  using assms by (simp add: rewrite_def Let_def case_prod_beta)

lemma mcmc_step_total:
  assumes "ops \<noteq> []"
  shows "\<exists>st'. mcmc_step S ops alpha up rs i st = Inr st'"
proof -
  let ?st1 = "if rs \<le> i - last_reset_iter st
              then st\<lparr>current := best st, current_runtime := best_runtime st,
                      last_reset_iter := i\<rparr>
              else st"
  from rewrite_total [OF assms, where S = S and cur = "current ?st1" and up = up
      and g = "gen ?st1"] obtain r where
    "rewrite S ops (current ?st1) up (gen ?st1) = Inr r"
    by blast
  then show ?thesis
    by (simp add: mcmc_step_def mcmc_proposal_def Let_def ebind_def case_prod_beta)
qed

lemma for_fold_total:
  assumes "\<And>i s. \<exists>s'. f i s = Inr s'"
  shows "\<exists>s'. for_fold ns f s = Inr s'"
proof (induction ns arbitrary: s)
  case Nil
  show ?case by simp
next
  case (Cons i ns)
  from assms [of i s] obtain s1 where "f i s = Inr s1"
    by blast
  with Cons.IH [of s1] show ?case
    by (simp add: ebind_def)
qed

lemma mcmc_after_total:
  assumes "ops \<noteq> []"
  shows "\<exists>st. mcmc_after S ops best0 b alpha up g k = Inr st"
  unfolding mcmc_after_def
  by (rule for_fold_total) (rule mcmc_step_total [OF assms])

lemma mcmc_after_Suc:
  assumes "mcmc_after S ops best0 b alpha up g (Suc k) = Inr st'"
  shows "\<exists>st. mcmc_after S ops best0 b alpha up g k = Inr st \<and>
    best_runtime st' \<le> best_runtime st"
proof -
  from assms obtain st where st: "mcmc_after S ops best0 b alpha up g k = Inr st"
    and step: "mcmc_step S ops alpha up (reset_span_of b) k st = Inr st'"
    unfolding mcmc_after_def by (auto simp: for_fold_append dest!: ebind_Inr)
  from mcmc_step_Inr [OF step] have "best_runtime st' \<le> best_runtime st"
    by auto
  with st show ?thesis
    by blast
qed

lemma mcmc_after_mono:
  assumes "mcmc_after S ops best0 b alpha up g k = Inr st" and "j \<le> k"
  shows "\<exists>sj. mcmc_after S ops best0 b alpha up g j = Inr sj \<and>
    best_runtime st \<le> best_runtime sj"
  using assms
proof (induction k arbitrary: st)
  case 0
  then show ?case by simp
next
  case (Suc k)
  show ?case
  proof (cases "j = Suc k")
    case True
    with Suc.prems show ?thesis by auto
  next
    case False
    with Suc.prems have jk: "j \<le> k"
      by simp
    from mcmc_after_Suc [OF Suc.prems(1)] obtain sk where
      sk: "mcmc_after S ops best0 b alpha up g k = Inr sk"
      and le: "best_runtime st \<le> best_runtime sk"
      by blast
    from Suc.IH [OF sk jk] obtain sj where
      "mcmc_after S ops best0 b alpha up g j = Inr sj" "best_runtime sk \<le> best_runtime sj"
      by blast
    with le show ?thesis
      by (meson order_trans)
  qed
qed

lemma mcmc_after_best:
  assumes "mcmc_after S ops best0 b alpha up g k = Inr st"
  shows "best_runtime st =
    Min (insert (simulate_runtime S best0)
      (set (seen_costs S ops alpha up (reset_span_of b) [0..<k] (mcmc_init S best0 g))))"
  using mcmc_run_best [OF assms [unfolded mcmc_after_def]]
  by (simp add: mcmc_init_def)

lemma example_seen_costs:
  "seen_costs example_search [1, 2, 3] (6 / 5) False (reset_span_of 3)
     [0..<4] (mcmc_init example_search Map.empty example_rands) = [22, 15, 15, 14]"
  by code_simp

lemma example_initial_cost:
  "simulate_runtime example_search Map.empty = 30"
  by (simp add: example_search_def example_cost_def)

text \<open>
  C1: the search returns when there is an operator and \<open>budget\<close> is not the largest
  \<open>size_t\<close>; it runs \<open>budget + 1\<close> iterations. After any number \<open>k\<close> of them the best cost is
  the minimum of the cost of the initial assignment and of the costs of the proposals of the
  iterations before \<open>k\<close>, and it is at most the best cost after any smaller number of
  iterations.
\<close>

theorem mcmc_best_is_running_minimum:
  assumes ne: "ops \<noteq> []" and fin: "budget \<noteq> - 1"
  shows "(\<exists>st. mcmc_optimize S ops best0 budget alpha up g = Some (Inr st) \<and>
           mcmc_after S ops best0 (unat budget) alpha up g (Suc (unat budget)) = Inr st) \<and>
    (\<forall>k. \<exists>st. mcmc_after S ops best0 (unat budget) alpha up g k = Inr st \<and>
       best_runtime st =
         Min (insert (simulate_runtime S best0)
           (set (seen_costs S ops alpha up (reset_span_of (unat budget)) [0..<k]
                  (mcmc_init S best0 g)))) \<and>
       (\<forall>j\<le>k. \<exists>sj. mcmc_after S ops best0 (unat budget) alpha up g j = Inr sj \<and>
          best_runtime st \<le> best_runtime sj))"
proof (rule conjI)
  from mcmc_after_total [OF ne, where S = S and ?best0.0 = best0 and b = "unat budget"
      and alpha = alpha and up = up and g = g and k = "Suc (unat budget)"] obtain st where
    "mcmc_after S ops best0 (unat budget) alpha up g (Suc (unat budget)) = Inr st"
    by blast
  then show "\<exists>st. mcmc_optimize S ops best0 budget alpha up g = Some (Inr st) \<and>
           mcmc_after S ops best0 (unat budget) alpha up g (Suc (unat budget)) = Inr st"
    using fin by (simp add: mcmc_optimize_def)
next
  show "\<forall>k. \<exists>st. mcmc_after S ops best0 (unat budget) alpha up g k = Inr st \<and>
       best_runtime st =
         Min (insert (simulate_runtime S best0)
           (set (seen_costs S ops alpha up (reset_span_of (unat budget)) [0..<k]
                  (mcmc_init S best0 g)))) \<and>
       (\<forall>j\<le>k. \<exists>sj. mcmc_after S ops best0 (unat budget) alpha up g j = Inr sj \<and>
          best_runtime st \<le> best_runtime sj)"
  proof
    fix k
    from mcmc_after_total [OF ne, where S = S and ?best0.0 = best0 and b = "unat budget"
        and alpha = alpha and up = up and g = g and k = k] obtain st where
      st: "mcmc_after S ops best0 (unat budget) alpha up g k = Inr st"
      by blast
    have "\<forall>j\<le>k. \<exists>sj. mcmc_after S ops best0 (unat budget) alpha up g j = Inr sj \<and>
          best_runtime st \<le> best_runtime sj"
      using mcmc_after_mono [OF st] by blast
    with st mcmc_after_best [OF st]
    show "\<exists>st. mcmc_after S ops best0 (unat budget) alpha up g k = Inr st \<and>
       best_runtime st =
         Min (insert (simulate_runtime S best0)
           (set (seen_costs S ops alpha up (reset_span_of (unat budget)) [0..<k]
                  (mcmc_init S best0 g)))) \<and>
       (\<forall>j\<le>k. \<exists>sj. mcmc_after S ops best0 (unat budget) alpha up g j = Inr sj \<and>
          best_runtime st \<le> best_runtime sj)"
      by blast
  qed
qed

theorem mcmc_best_is_running_minimum_witness:
  "[1, 2, 3] \<noteq> ([] :: op_ptr list) \<and> (3 :: size_t) \<noteq> - 1 \<and>
   (\<exists>st. mcmc_optimize example_search [1, 2, 3] Map.empty 3 (6 / 5) False example_rands
            = Some (Inr st) \<and>
         best_runtime st = Min {30, 22, 15, 15, 14} \<and> best_runtime st = 14)"
proof -
  have ne: "[1, 2, 3] \<noteq> ([] :: op_ptr list)"
    by simp
  have fin: "(3 :: size_t) \<noteq> - 1"
    by simp
  have u: "unat (3 :: size_t) = 3"
    by simp
  note t = mcmc_best_is_running_minimum [where S = example_search and ops = "[1, 2, 3]"
      and budget = 3 and ?best0.0 = Map.empty and alpha = "6 / 5" and up = False
      and g = example_rands, OF ne fin, unfolded u]
  from t [THEN conjunct1] obtain st where
    r: "mcmc_optimize example_search [1, 2, 3] Map.empty 3 (6 / 5) False example_rands
          = Some (Inr st)"
    and a: "mcmc_after example_search [1, 2, 3] Map.empty 3 (6 / 5) False example_rands
          (Suc 3) = Inr st"
    by blast
  from t [THEN conjunct2, THEN spec, of "Suc 3"] obtain st' where
    a': "mcmc_after example_search [1, 2, 3] Map.empty 3 (6 / 5) False example_rands
          (Suc 3) = Inr st'"
    and m: "best_runtime st' = Min (insert (simulate_runtime example_search Map.empty)
          (set (seen_costs example_search [1, 2, 3] (6 / 5) False (reset_span_of 3)
             [0..<Suc 3] (mcmc_init example_search Map.empty example_rands))))"
    by blast
  have four: "Suc 3 = 4"
    by simp
  from a a' have "st' = st"
    by simp
  with m have b: "best_runtime st = Min {30, 22, 15, 15, 14}"
    unfolding four example_seen_costs example_initial_cost by simp
  then have "best_runtime st = 14"
    by simp
  with r b have "\<exists>st. mcmc_optimize example_search [1, 2, 3] Map.empty 3 (6 / 5) False
      example_rands = Some (Inr st) \<and>
         best_runtime st = Min {30, 22, 15, 15, 14} \<and> best_runtime st = 14"
    by blast
  with ne fin show ?thesis
    by (intro conjI)
qed

section \<open>The fusion pass\<close>

text \<open>
  \<open>Op::is_parallel_op\<close> and \<open>Op::has_inplace_output\<close> are virtual, and the class \<open>FusedOp\<close>
  is not among the sources: the two tests, \<open>new FusedOp(model, op)\<close> and
  \<open>FusedOp::add_operator\<close> are parameters. \<open>add_operator F fused op\<close> is \<open>None\<close> when the call
  returns \<open>false\<close>, and the fused operator after the call when it returns \<open>true\<close>. The
  operators of the vector are distinct objects, and tensors are not written to: an operator is
  modelled by its value, with its address for the comparisons of pointers.
\<close>

record FusionOracles =
  is_parallel_op :: "Op \<Rightarrow> bool"
  has_inplace_output :: "Op \<Rightarrow> bool"
  new_FusedOp :: "Op \<Rightarrow> Op"
  add_operator :: "Op \<Rightarrow> Op \<Rightarrow> Op option"

text \<open>
  The block that computes \<open>start\<close>: the largest position before \<open>l\<close> of an operator that owns
  an input of \<open>operators[l]\<close>.
\<close>

definition owner_scan ::
  "Op list \<Rightarrow> nat \<Rightarrow> ParallelTensorBase \<Rightarrow> nat \<Rightarrow> error + (bool \<times> nat)" where
  "owner_scan ops l t start =
     for_fold [0..<l] (\<lambda>i (found, start).
       if owner_op t = Some (op_addr (ops ! i))
       then ebind (assert_that (\<not> found)) (\<lambda>_. Inr (True, if start < i then i else start))
       else Inr (found, start)) (False, start)"

definition fusion_start :: "Op list \<Rightarrow> nat \<Rightarrow> error + nat" where
  "fusion_start ops l =
     for_fold [0..<nat (numInputs (ops ! l))] (\<lambda>k start.
       ebind (input_at (ops ! l) (int k)) (\<lambda>t.
       ebind (owner_scan ops l t start) (\<lambda>(found, start').
       ebind (assert_that (found \<or> owner_op t = None)) (\<lambda>_. Inr start')))) 0"

text \<open>
  The fused operator that \<open>operators[i]\<close> seeds: itself when it is a fused operator, a new
  fused operator otherwise, and none when the code goes on to the next \<open>i\<close>.
\<close>

definition fusion_seed :: "FusionOracles \<Rightarrow> Op \<Rightarrow> Op option" where
  "fusion_seed F op =
     (if op_type op = OP_FUSED then Some op
      else if has_inplace_output F op then None
      else if op_type op = OP_INPUT \<or> op_type op = OP_WEIGHT then None
      else if is_parallel_op F op then None
      else Some (new_FusedOp F op))"

text \<open>The output slot of the fused operator with the region of \<open>t\<close>.\<close>

definition find_output :: "Op \<Rightarrow> ParallelTensorBase \<Rightarrow> error + int" where
  "find_output fused t =
     ebind (for_fold [0..<nat (numOutputs fused)] (\<lambda>k found.
              ebind (output_at fused (int k)) (\<lambda>out.
              if region out = region t
              then ebind (assert_that (found = - 1)) (\<lambda>_. Inr (int k))
              else Inr found)) (- 1)) (\<lambda>found.
     ebind (assert_that (0 \<le> found)) (\<lambda>_. Inr found))"

text \<open>The update of the inputs of a later operator.\<close>

definition rewire_op :: "Op \<Rightarrow> op_ptr \<Rightarrow> op_ptr \<Rightarrow> Op \<Rightarrow> error + Op" where
  "rewire_op fused opl opi op =
     for_fold [0..<nat (numInputs op)] (\<lambda>k op'.
       ebind (input_at op' (int k)) (\<lambda>t.
       if owner_op t = Some opl \<or> owner_op t = Some opi
       then ebind (find_output fused t) (\<lambda>found.
            ebind (output_at fused found) (\<lambda>out.
            Inr (op'\<lparr>inputs := (inputs op')[k := out]\<rparr>)))
       else Inr op')) op"

text \<open>The construction of \<open>new_operators\<close>.\<close>

definition rebuild :: "Op \<Rightarrow> Op list \<Rightarrow> nat \<Rightarrow> nat \<Rightarrow> error + Op list" where
  "rebuild fused ops i l =
     ebind (for_each (filter (\<lambda>j. j \<noteq> l) [Suc i..<length ops]) (\<lambda>j.
              rewire_op fused (op_addr (ops ! l)) (op_addr (ops ! i)) (ops ! j))) (\<lambda>rest.
     let new_operators = take i ops @ [fused] @ rest in
     ebind (assert_that (length new_operators + 1 = length ops)) (\<lambda>_. Inr new_operators))"

text \<open>
  The body of the loop over \<open>i\<close>: \<open>Some\<close> of the new operators when the function returns
  \<open>true\<close> there, \<open>None\<close> when the loop goes on.
\<close>

definition fuse_pair :: "FusionOracles \<Rightarrow> Op list \<Rightarrow> nat \<Rightarrow> nat \<Rightarrow> error + Op list option" where
  "fuse_pair F ops l i =
     ebind (output_at (ops ! l) 0) (\<lambda>out1.
     ebind (output_at (ops ! i) 0) (\<lambda>out2.
     if machine_view out1 = machine_view out2
     then (case fusion_seed F (ops ! i) of
             None \<Rightarrow> Inr None
           | Some fused_op \<Rightarrow>
               (case add_operator F fused_op (ops ! l) of
                  None \<Rightarrow> Inr None
                | Some fused \<Rightarrow> ebind (rebuild fused ops i l) (\<lambda>new. Inr (Some new))))
     else Inr None))"

fun try_seeds :: "FusionOracles \<Rightarrow> Op list \<Rightarrow> nat \<Rightarrow> nat list \<Rightarrow> error + Op list option" where
  "try_seeds F ops l [] = Inr None"
| "try_seeds F ops l (i # rest) =
     ebind (fuse_pair F ops l i) (\<lambda>r.
       case r of Some new \<Rightarrow> Inr (Some new) | None \<Rightarrow> try_seeds F ops l rest)"

text \<open>The body of the loop over \<open>l\<close>.\<close>

definition fuse_candidate :: "FusionOracles \<Rightarrow> Op list \<Rightarrow> nat \<Rightarrow> error + Op list option" where
  "fuse_candidate F ops l =
     (if op_type (ops ! l) = OP_INPUT \<or> op_type (ops ! l) = OP_WEIGHT then Inr None
      else if is_parallel_op F (ops ! l) then Inr None
      else ebind (fusion_start ops l) (\<lambda>start. try_seeds F ops l [start..<l]))"

fun try_candidates :: "FusionOracles \<Rightarrow> Op list \<Rightarrow> nat list \<Rightarrow> error + Op list option" where
  "try_candidates F ops [] = Inr None"
| "try_candidates F ops (l # rest) =
     ebind (fuse_candidate F ops l) (\<lambda>r.
       case r of Some new \<Rightarrow> Inr (Some new) | None \<Rightarrow> try_candidates F ops rest)"

text \<open>
  \<open>FFModel::apply_fusion\<close>: \<open>Some\<close> of the new operators when it returns \<open>true\<close>, \<open>None\<close> when
  it returns \<open>false\<close> (it has not written to \<open>new_operators\<close> then). With no operator the
  bound \<open>operators.size() - 1\<close> wraps around and the loop reads \<open>operators[1]\<close>.
\<close>

definition apply_fusion :: "FusionOracles \<Rightarrow> Op list \<Rightarrow> error + Op list option" where
  "apply_fusion F ops =
     (if ops = [] then Inl OutOfBounds
      else try_candidates F ops [1..<length ops - 1])"

text \<open>
  What the rewriting makes of an input \<open>t\<close> of a later operator: the output of the fused
  operator with the region of \<open>t\<close>, the only one among the \<open>numOutputs\<close> outputs, when \<open>t\<close> is
  owned by one of the pair, and \<open>t\<close> otherwise.
\<close>

definition rewired_input :: "Op \<Rightarrow> op_ptr \<Rightarrow> op_ptr \<Rightarrow> ParallelTensorBase \<Rightarrow> ParallelTensorBase \<Rightarrow> bool"
  where
  "rewired_input fused opl opi t t' =
     (if owner_op t = Some opl \<or> owner_op t = Some opi
      then list_ex (\<lambda>k. k < length (outputs fused) \<and> t' = outputs fused ! k \<and>
                       region t' = region t \<and>
                       list_all (\<lambda>k'. region (outputs fused ! k') = region t \<longrightarrow> k' = k)
                         [0..<nat (numOutputs fused)])
             [0..<nat (numOutputs fused)]
      else t' = t)"

definition rewired_op :: "Op \<Rightarrow> op_ptr \<Rightarrow> op_ptr \<Rightarrow> Op \<Rightarrow> Op \<Rightarrow> bool" where
  "rewired_op fused opl opi op op' =
     (op' = op\<lparr>inputs := inputs op'\<rparr> \<and> length (inputs op') = length (inputs op) \<and>
      nat (numInputs op) \<le> length (inputs op) \<and>
      list_all (\<lambda>k. rewired_input fused opl opi (inputs op ! k) (inputs op' ! k))
        [0..<nat (numInputs op)])"

text \<open>The position in the vector of the \<open>k\<close>-th operator after \<open>i\<close> that is not \<open>l\<close>.\<close>

definition later_index :: "nat \<Rightarrow> nat \<Rightarrow> nat \<Rightarrow> nat" where
  "later_index i l k = (if Suc i + k < l then Suc i + k else Suc (Suc i + k))"

text \<open>
  An instance for the examples: an input, a linear operator, a \<open>relu\<close> with an in-place
  output and a softmax, all with the same machine view. A parallel operator is one of the
  five kinds that move data; a new fused operator takes over the outputs of its seed, and
  \<open>add_operator\<close> appends the outputs of the operator it incorporates, up to four outputs.
\<close>

definition fusion_tensor :: "op_ptr \<Rightarrow> LogicalRegion \<Rightarrow> ParallelTensorBase" where
  "fusion_tensor owner r =
     \<lparr>parallel_tensor_guid = 0, num_dims = 1, dims = [], data_type = DT_FLOAT,
      owner_op = Some owner, owner_idx = 0, create_gradients = False, region = r,
      region_grad = 0, part = None, part_grad = None, machine_view = [0, 1]\<rparr>"

definition fusion_op ::
  "op_ptr \<Rightarrow> OperatorType \<Rightarrow> ParallelTensorBase list \<Rightarrow> LogicalRegion \<Rightarrow> bool \<Rightarrow> Op" where
  "fusion_op a kind ins r inplace =
     \<lparr>op_addr = a, op_type = kind, op_data_type = DT_FLOAT, op_name = [],
      numInputs = int (length ins), numWeights = 0, numOutputs = 1, inputs = ins,
      outputs = [fusion_tensor a r], inplace_output = inplace, derived = PlainOp\<rparr>"

definition example_fusion :: FusionOracles where
  "example_fusion =
     \<lparr>is_parallel_op = (\<lambda>op. op_type op \<in> {OP_REPARTITION, OP_COMBINE, OP_REPLICATE,
                                            OP_REDUCTION, OP_FUSED_PARALLEL}),
      has_inplace_output = inplace_output,
      new_FusedOp = (\<lambda>op. op\<lparr>op_addr := op_addr op + 100, op_type := OP_FUSED,
                              outputs := map (\<lambda>t. t\<lparr>owner_op := Some (op_addr op + 100)\<rparr>)
                                           (outputs op),
                              inplace_output := False\<rparr>),
      add_operator = (\<lambda>fused op.
        if 4 < numOutputs fused + numOutputs op then None
        else Some (fused\<lparr>numOutputs := numOutputs fused + numOutputs op,
                         outputs := outputs fused @
                           map (\<lambda>t. t\<lparr>owner_op := Some (op_addr fused)\<rparr>) (outputs op)\<rparr>))\<rparr>"

definition example_chain :: "Op list" where
  "example_chain =
     [fusion_op 10 OP_INPUT [] 1 False,
      fusion_op 11 OP_LINEAR [fusion_tensor 10 1] 2 False,
      fusion_op 12 OP_RELU [fusion_tensor 11 2] 3 True,
      fusion_op 13 OP_SOFTMAX [fusion_tensor 12 3] 4 False]"

definition example_fused :: Op where
  "example_fused =
     \<lparr>op_addr = 111, op_type = OP_FUSED, op_data_type = DT_FLOAT, op_name = [],
      numInputs = 1, numWeights = 0, numOutputs = 2, inputs = [fusion_tensor 10 1],
      outputs = [fusion_tensor 111 2, fusion_tensor 111 3], inplace_output = False,
      derived = PlainOp\<rparr>"

definition example_chain_fused :: "Op list" where
  "example_chain_fused =
     [fusion_op 10 OP_INPUT [] 1 False,
      example_fused,
      fusion_op 13 OP_SOFTMAX [fusion_tensor 111 3] 4 False]"

subsection \<open>The fused pair\<close>

lemma example_chain_fusion:
  "apply_fusion example_fusion example_chain = Inr (Some example_chain_fused)"
  by code_simp

lemma output_at_Inr:
  "output_at op k = Inr out \<Longrightarrow> 0 \<le> k \<and> nat k < length (outputs op) \<and> out = outputs op ! nat k"
  by (auto simp: output_at_def split: if_splits)

lemma try_seeds_Some:
  "try_seeds F ops l cands = Inr (Some new) \<Longrightarrow>
   \<exists>i\<in>set cands. fuse_pair F ops l i = Inr (Some new)"
proof (induction cands)
  case Nil
  then show ?case by simp
next
  case (Cons i cands)
  from Cons.prems obtain r where r: "fuse_pair F ops l i = Inr r"
    and rest: "(case r of Some new \<Rightarrow> Inr (Some new) | None \<Rightarrow> try_seeds F ops l cands)
      = Inr (Some new)"
    by (auto dest!: ebind_Inr)
  show ?case
  proof (cases r)
    case None
    with rest Cons.IH show ?thesis by simp
  next
    case (Some a)
    with rest r show ?thesis by simp
  qed
qed

lemma try_candidates_Some:
  "try_candidates F ops cands = Inr (Some new) \<Longrightarrow>
   \<exists>l\<in>set cands. fuse_candidate F ops l = Inr (Some new)"
proof (induction cands)
  case Nil
  then show ?case by simp
next
  case (Cons l cands)
  from Cons.prems obtain r where r: "fuse_candidate F ops l = Inr r"
    and rest: "(case r of Some new \<Rightarrow> Inr (Some new) | None \<Rightarrow> try_candidates F ops cands)
      = Inr (Some new)"
    by (auto dest!: ebind_Inr)
  show ?case
  proof (cases r)
    case None
    with rest Cons.IH show ?thesis by simp
  next
    case (Some a)
    with rest r show ?thesis by simp
  qed
qed

lemma fuse_pair_Some:
  assumes "fuse_pair F ops l i = Inr (Some new)"
  shows "\<exists>out1 out2 fused_op fused.
    output_at (ops ! l) 0 = Inr out1 \<and> output_at (ops ! i) 0 = Inr out2 \<and>
    machine_view out1 = machine_view out2 \<and>
    fusion_seed F (ops ! i) = Some fused_op \<and>
    add_operator F fused_op (ops ! l) = Some fused \<and>
    rebuild fused ops i l = Inr new"
  using assms unfolding fuse_pair_def
  by (auto dest!: ebind_Inr split: if_splits option.splits)

lemma fuse_candidate_Some:
  assumes "fuse_candidate F ops l = Inr (Some new)"
  shows "op_type (ops ! l) \<noteq> OP_INPUT \<and> op_type (ops ! l) \<noteq> OP_WEIGHT \<and>
    \<not> is_parallel_op F (ops ! l) \<and>
    (\<exists>i<l. fuse_pair F ops l i = Inr (Some new))"
proof -
  from assms have k: "op_type (ops ! l) \<noteq> OP_INPUT" "op_type (ops ! l) \<noteq> OP_WEIGHT"
    "\<not> is_parallel_op F (ops ! l)"
    unfolding fuse_candidate_def by (auto split: if_splits)
  with assms obtain start where "try_seeds F ops l [start..<l] = Inr (Some new)"
    unfolding fuse_candidate_def by (auto dest!: ebind_Inr)
  from try_seeds_Some [OF this] have "\<exists>i<l. fuse_pair F ops l i = Inr (Some new)"
    by auto
  with k show ?thesis
    by simp
qed

lemma fusion_seed_Some:
  assumes "fusion_seed F op = Some fused_op"
  shows "op_type op \<noteq> OP_INPUT \<and> op_type op \<noteq> OP_WEIGHT \<and>
    (op_type op = OP_FUSED \<or> \<not> is_parallel_op F op \<and> \<not> has_inplace_output F op)"
  using assms unfolding fusion_seed_def by (auto split: if_splits)

lemma apply_fusion_Some:
  assumes "apply_fusion F ops = Inr (Some new)"
  shows "\<exists>i l fused_op fused. 1 \<le> l \<and> i < l \<and> l < length ops - 1 \<and>
    fuse_candidate F ops l = Inr (Some new) \<and>
    fusion_seed F (ops ! i) = Some fused_op \<and>
    add_operator F fused_op (ops ! l) = Some fused \<and>
    rebuild fused ops i l = Inr new"
proof -
  from assms have "try_candidates F ops [1..<length ops - 1] = Inr (Some new)"
    unfolding apply_fusion_def by (auto split: if_splits)
  from try_candidates_Some [OF this] obtain l where l: "1 \<le> l" "l < length ops - 1"
    and c: "fuse_candidate F ops l = Inr (Some new)"
    by auto
  from fuse_candidate_Some [OF c] obtain i where i: "i < l"
    and p: "fuse_pair F ops l i = Inr (Some new)"
    by blast
  from fuse_pair_Some [OF p] obtain fused_op fused where
    "fusion_seed F (ops ! i) = Some fused_op"
    "add_operator F fused_op (ops ! l) = Some fused"
    "rebuild fused ops i l = Inr new"
    by blast
  with l i c show ?thesis
    by blast
qed

text \<open>
  C4, as the code has it: when the pass fuses \<open>O[i]\<close> and \<open>O[l]\<close>, neither is an input or a
  weight operator, and \<open>O[l]\<close> is not a parallel operator. The seed \<open>O[i]\<close> is either a fused
  operator already or an operator that is not parallel and has no in-place output; so, a
  fused operator being no parallel operator, neither of the pair is a parallel operator.
  The test of the in-place output is made on the seed \<open>O[i]\<close>; there is none on \<open>O[l]\<close>.
\<close>

theorem fusion_pair_kinds:
  assumes "apply_fusion F ops = Inr (Some new)"
  shows "\<exists>i l fused_op fused. 1 \<le> l \<and> i < l \<and> l < length ops - 1 \<and>
    fusion_seed F (ops ! i) = Some fused_op \<and>
    add_operator F fused_op (ops ! l) = Some fused \<and>
    rebuild fused ops i l = Inr new \<and>
    op_type (ops ! l) \<noteq> OP_INPUT \<and> op_type (ops ! l) \<noteq> OP_WEIGHT \<and>
    \<not> is_parallel_op F (ops ! l) \<and>
    op_type (ops ! i) \<noteq> OP_INPUT \<and> op_type (ops ! i) \<noteq> OP_WEIGHT \<and>
    (op_type (ops ! i) = OP_FUSED \<or>
     \<not> is_parallel_op F (ops ! i) \<and> \<not> has_inplace_output F (ops ! i)) \<and>
    ((\<forall>op. is_parallel_op F op \<longrightarrow> op_type op \<noteq> OP_FUSED) \<longrightarrow>
     \<not> is_parallel_op F (ops ! i))"
proof -
  from apply_fusion_Some [OF assms] obtain i l fused_op fused where
    b: "1 \<le> l" "i < l" "l < length ops - 1"
    and c: "fuse_candidate F ops l = Inr (Some new)"
    and s: "fusion_seed F (ops ! i) = Some fused_op"
    and a: "add_operator F fused_op (ops ! l) = Some fused"
    and r: "rebuild fused ops i l = Inr new"
    by blast
  from fuse_candidate_Some [OF c] have kl: "op_type (ops ! l) \<noteq> OP_INPUT"
    "op_type (ops ! l) \<noteq> OP_WEIGHT" "\<not> is_parallel_op F (ops ! l)"
    by simp_all
  from fusion_seed_Some [OF s] have ki: "op_type (ops ! i) \<noteq> OP_INPUT"
    "op_type (ops ! i) \<noteq> OP_WEIGHT"
    "op_type (ops ! i) = OP_FUSED \<or>
     \<not> is_parallel_op F (ops ! i) \<and> \<not> has_inplace_output F (ops ! i)"
    by simp_all
  have par: "(\<forall>op. is_parallel_op F op \<longrightarrow> op_type op \<noteq> OP_FUSED) \<longrightarrow>
     \<not> is_parallel_op F (ops ! i)"
  proof
    assume nf: "\<forall>op. is_parallel_op F op \<longrightarrow> op_type op \<noteq> OP_FUSED"
    from ki(3) show "\<not> is_parallel_op F (ops ! i)"
    proof
      assume "op_type (ops ! i) = OP_FUSED"
      with nf show ?thesis
        by blast
    next
      assume "\<not> is_parallel_op F (ops ! i) \<and> \<not> has_inplace_output F (ops ! i)"
      then show ?thesis
        by (rule conjunct1)
    qed
  qed
  show ?thesis
    apply (rule exI [of _ i])
    apply (rule exI [of _ l])
    apply (rule exI [of _ fused_op])
    apply (rule exI [of _ fused])
    apply (intro conjI)
    apply (rule b s a r kl ki par)+
    done
qed

lemma example_parallel_not_fused:
  "\<forall>op. is_parallel_op example_fusion op \<longrightarrow> op_type op \<noteq> OP_FUSED"
  by (auto simp: example_fusion_def)

theorem fusion_pair_kinds_witness:
  "apply_fusion example_fusion example_chain = Inr (Some example_chain_fused) \<and>
   (\<exists>i l fused_op fused. 1 \<le> l \<and> i < l \<and> l < length example_chain - 1 \<and>
      fusion_seed example_fusion (example_chain ! i) = Some fused_op \<and>
      add_operator example_fusion fused_op (example_chain ! l) = Some fused \<and>
      rebuild fused example_chain i l = Inr example_chain_fused \<and>
      op_type (example_chain ! l) \<noteq> OP_INPUT \<and> op_type (example_chain ! l) \<noteq> OP_WEIGHT \<and>
      \<not> is_parallel_op example_fusion (example_chain ! l) \<and>
      op_type (example_chain ! i) \<noteq> OP_INPUT \<and> op_type (example_chain ! i) \<noteq> OP_WEIGHT \<and>
      \<not> is_parallel_op example_fusion (example_chain ! i))"
proof -
  from fusion_pair_kinds [OF example_chain_fusion] obtain i l fused_op fused where
    f: "1 \<le> l" "i < l" "l < length example_chain - 1"
      "fusion_seed example_fusion (example_chain ! i) = Some fused_op"
      "add_operator example_fusion fused_op (example_chain ! l) = Some fused"
      "rebuild fused example_chain i l = Inr example_chain_fused"
      "op_type (example_chain ! l) \<noteq> OP_INPUT" "op_type (example_chain ! l) \<noteq> OP_WEIGHT"
      "\<not> is_parallel_op example_fusion (example_chain ! l)"
      "op_type (example_chain ! i) \<noteq> OP_INPUT" "op_type (example_chain ! i) \<noteq> OP_WEIGHT"
    and p: "(\<forall>op. is_parallel_op example_fusion op \<longrightarrow> op_type op \<noteq> OP_FUSED) \<longrightarrow>
      \<not> is_parallel_op example_fusion (example_chain ! i)"
    by blast
  from p example_parallel_not_fused
  have np: "\<not> is_parallel_op example_fusion (example_chain ! i)"
    by (rule mp)
  have "\<exists>i l fused_op fused. 1 \<le> l \<and> i < l \<and> l < length example_chain - 1 \<and>
      fusion_seed example_fusion (example_chain ! i) = Some fused_op \<and>
      add_operator example_fusion fused_op (example_chain ! l) = Some fused \<and>
      rebuild fused example_chain i l = Inr example_chain_fused \<and>
      op_type (example_chain ! l) \<noteq> OP_INPUT \<and> op_type (example_chain ! l) \<noteq> OP_WEIGHT \<and>
      \<not> is_parallel_op example_fusion (example_chain ! l) \<and>
      op_type (example_chain ! i) \<noteq> OP_INPUT \<and> op_type (example_chain ! i) \<noteq> OP_WEIGHT \<and>
      \<not> is_parallel_op example_fusion (example_chain ! i)"
    apply (rule exI [of _ i])
    apply (rule exI [of _ l])
    apply (rule exI [of _ fused_op])
    apply (rule exI [of _ fused])
    apply (intro conjI)
    apply (rule f np)+
    done
  with example_chain_fusion show ?thesis
    by (rule conjI)
qed

text \<open>
  The claim as stated, that an \<open>O[l]\<close> with an in-place output is never incorporated, fails:
  the \<open>relu\<close> at position 2 has an in-place output and is fused into the linear operator at
  position 1.
\<close>

theorem fusion_inplace_candidate_counterexample:
  "has_inplace_output example_fusion (example_chain ! 2) \<and>
   fuse_candidate example_fusion example_chain 1 = Inr None \<and>
   fuse_pair example_fusion example_chain 2 1 = Inr (Some example_chain_fused) \<and>
   apply_fusion example_fusion example_chain = Inr (Some example_chain_fused) \<and>
   example_chain_fused ! 1 = example_fused"
proof -
  have a: "has_inplace_output example_fusion (example_chain ! 2)"
    by (simp add: example_fusion_def example_chain_def fusion_op_def)
  have b: "fuse_candidate example_fusion example_chain 1 = Inr None"
    by code_simp
  have c: "fuse_pair example_fusion example_chain 2 1 = Inr (Some example_chain_fused)"
    by code_simp
  have d: "apply_fusion example_fusion example_chain = Inr (Some example_chain_fused)"
    by code_simp
  have e: "example_chain_fused ! 1 = example_fused"
    by (simp add: example_chain_fused_def)
  show ?thesis
    by (intro conjI) (rule a b c d e)+
qed

subsection \<open>The new operators\<close>

lemma find_output_scan:
  assumes "for_fold [0..<n] (\<lambda>k found.
              ebind (output_at fused (int k)) (\<lambda>out.
              if region out = region t
              then ebind (assert_that (found = - 1)) (\<lambda>_. Inr (int k))
              else Inr found)) (- 1) = Inr found"
  shows "if found = - 1 then \<forall>k<n. region (outputs fused ! k) \<noteq> region t
     else 0 \<le> found \<and> nat found < n \<and> nat found < length (outputs fused) \<and>
          region (outputs fused ! nat found) = region t \<and>
          (\<forall>k<n. region (outputs fused ! k) = region t \<longrightarrow> k = nat found)"
  using assms
proof (induction n arbitrary: found)
  case 0
  then show ?case by simp
next
  case (Suc n)
  from Suc.prems obtain f0 out where f0: "for_fold [0..<n] (\<lambda>k found.
              ebind (output_at fused (int k)) (\<lambda>out.
              if region out = region t
              then ebind (assert_that (found = - 1)) (\<lambda>_. Inr (int k))
              else Inr found)) (- 1) = Inr f0"
    and out: "output_at fused (int n) = Inr out"
    and last: "(if region out = region t
              then ebind (assert_that (f0 = - 1)) (\<lambda>_. Inr (int n))
              else Inr f0) = Inr found"
    by (auto simp: for_fold_append dest!: ebind_Inr)
  from output_at_Inr [OF out] have o: "n < length (outputs fused)" "out = outputs fused ! n"
    by simp_all
  note ih = Suc.IH [OF f0]
  show ?case
  proof (cases "region out = region t")
    case True
    with last have "f0 = - 1" "found = int n"
      by (auto dest!: ebind_Inr assert_that_Inr)
    with ih True o show ?thesis
      by (auto simp: less_Suc_eq)
  next
    case False
    with last have "found = f0"
      by simp
    with ih False o show ?thesis
      by (auto simp: less_Suc_eq split: if_splits)
  qed
qed

lemma find_output_Inr:
  assumes "find_output fused t = Inr found"
  shows "0 \<le> found \<and> nat found < nat (numOutputs fused) \<and> nat found < length (outputs fused) \<and>
    region (outputs fused ! nat found) = region t \<and>
    (\<forall>k<nat (numOutputs fused). region (outputs fused ! k) = region t \<longrightarrow> k = nat found)"
proof -
  from assms obtain f0 where f0: "for_fold [0..<nat (numOutputs fused)] (\<lambda>k found.
              ebind (output_at fused (int k)) (\<lambda>out.
              if region out = region t
              then ebind (assert_that (found = - 1)) (\<lambda>_. Inr (int k))
              else Inr found)) (- 1) = Inr f0"
    and pos: "0 \<le> f0" and eq: "found = f0"
    unfolding find_output_def by (auto dest!: ebind_Inr assert_that_Inr)
  from pos have "f0 \<noteq> - 1"
    by simp
  with find_output_scan [OF f0] pos eq show ?thesis
    by simp
qed

lemma rewired_inputI:
  assumes "find_output fused t = Inr found"
  shows "rewired_input fused opl opi t
     (if owner_op t = Some opl \<or> owner_op t = Some opi then outputs fused ! nat found else t)"
proof (cases "owner_op t = Some opl \<or> owner_op t = Some opi")
  case False
  then show ?thesis
    by (simp add: rewired_input_def)
next
  case True
  from find_output_Inr [OF assms] have f: "nat found < nat (numOutputs fused)"
    "nat found < length (outputs fused)"
    "region (outputs fused ! nat found) = region t"
    "\<forall>k<nat (numOutputs fused). region (outputs fused ! k) = region t \<longrightarrow> k = nat found"
    by simp_all
  have "list_ex (\<lambda>k. k < length (outputs fused) \<and> outputs fused ! nat found = outputs fused ! k \<and>
                   region (outputs fused ! nat found) = region t \<and>
                   list_all (\<lambda>k'. region (outputs fused ! k') = region t \<longrightarrow> k' = k)
                     [0..<nat (numOutputs fused)])
         [0..<nat (numOutputs fused)]"
    unfolding list_ex_iff list_all_iff
  proof (rule bexI [of _ "nat found"])
    show "nat found \<in> set [0..<nat (numOutputs fused)]"
      using f(1) by simp
    show "nat found < length (outputs fused) \<and>
      outputs fused ! nat found = outputs fused ! nat found \<and>
      region (outputs fused ! nat found) = region t \<and>
      (\<forall>k'\<in>set [0..<nat (numOutputs fused)].
         region (outputs fused ! k') = region t \<longrightarrow> k' = nat found)"
      using f by simp
  qed
  with True show ?thesis
    by (simp add: rewired_input_def)
qed

lemma rewire_scan:
  assumes "for_fold [0..<n] (\<lambda>k op'.
       ebind (input_at op' (int k)) (\<lambda>t.
       if owner_op t = Some opl \<or> owner_op t = Some opi
       then ebind (find_output fused t) (\<lambda>found.
            ebind (output_at fused found) (\<lambda>out.
            Inr (op'\<lparr>inputs := (inputs op')[k := out]\<rparr>)))
       else Inr op')) op = Inr op'"
  shows "op' = op\<lparr>inputs := inputs op'\<rparr> \<and> length (inputs op') = length (inputs op) \<and>
    n \<le> length (inputs op) \<and>
    (\<forall>k<n. rewired_input fused opl opi (inputs op ! k) (inputs op' ! k)) \<and>
    (\<forall>k\<ge>n. inputs op' ! k = inputs op ! k)"
  using assms
proof (induction n arbitrary: op')
  case 0
  then show ?case by simp
next
  case (Suc n)
  from Suc.prems obtain op1 t where op1: "for_fold [0..<n] (\<lambda>k op'.
       ebind (input_at op' (int k)) (\<lambda>t.
       if owner_op t = Some opl \<or> owner_op t = Some opi
       then ebind (find_output fused t) (\<lambda>found.
            ebind (output_at fused found) (\<lambda>out.
            Inr (op'\<lparr>inputs := (inputs op')[k := out]\<rparr>)))
       else Inr op')) op = Inr op1"
    and t: "input_at op1 (int n) = Inr t"
    and last: "(if owner_op t = Some opl \<or> owner_op t = Some opi
       then ebind (find_output fused t) (\<lambda>found.
            ebind (output_at fused found) (\<lambda>out.
            Inr (op1\<lparr>inputs := (inputs op1)[n := out]\<rparr>)))
       else Inr op1) = Inr op'"
    by (auto simp: for_fold_append dest!: ebind_Inr)
  from Suc.IH [OF op1] have ih: "op1 = op\<lparr>inputs := inputs op1\<rparr>"
    "length (inputs op1) = length (inputs op)" "n \<le> length (inputs op)"
    "\<forall>k<n. rewired_input fused opl opi (inputs op ! k) (inputs op1 ! k)"
    "\<forall>k\<ge>n. inputs op1 ! k = inputs op ! k"
    by simp_all
  from input_at_Inr [OF t] ih have n: "n < length (inputs op)" and tn: "t = inputs op ! n"
    by simp_all
  show ?case
  proof (cases "owner_op t = Some opl \<or> owner_op t = Some opi")
    case False
    with last have e: "op' = op1"
      by simp
    from False have "rewired_input fused opl opi t t"
      by (simp add: rewired_input_def)
    with ih n tn show ?thesis
      unfolding e by (auto simp: less_Suc_eq)
  next
    case True
    with last obtain found out where f: "find_output fused t = Inr found"
      and o: "output_at fused found = Inr out"
      and e: "op' = op1\<lparr>inputs := (inputs op1)[n := out]\<rparr>"
      by (auto dest!: ebind_Inr)
    from output_at_Inr [OF o] have out: "out = outputs fused ! nat found"
      by simp
    from rewired_inputI [OF f, of opl opi] True out
    have r: "rewired_input fused opl opi t out"
      by simp
    have 1: "op' = op\<lparr>inputs := inputs op'\<rparr>"
      unfolding e using ih(1) by (metis Op.surjective Op.update_convs(8) Op.select_convs(8))
    have 2: "length (inputs op') = length (inputs op)"
      unfolding e using ih(2) by simp
    have 3: "\<forall>k<Suc n. rewired_input fused opl opi (inputs op ! k) (inputs op' ! k)"
      unfolding e using ih(2,4) n tn r by (auto simp: less_Suc_eq nth_list_update)
    have 4: "\<forall>k\<ge>Suc n. inputs op' ! k = inputs op ! k"
      unfolding e using ih(5) by (auto simp: nth_list_update)
    from 1 2 3 4 n show ?thesis
      by simp
  qed
qed

lemma rewire_op_Inr:
  assumes "rewire_op fused opl opi op = Inr op'"
  shows "rewired_op fused opl opi op op'"
  using rewire_scan [OF assms [unfolded rewire_op_def]]
  by (simp add: rewired_op_def list_all_iff)


lemma filter_skip:
  assumes "i < l" and "l < n"
  shows "filter (\<lambda>j. j \<noteq> l) [Suc i..<n] = [Suc i..<l] @ [Suc l..<n]"
proof -
  from assms obtain d where n: "n = l + d"
    by (auto dest: less_imp_add_positive)
  from assms have "Suc i \<le> l"
    by simp
  then have "[Suc i..<l + d] = [Suc i..<l] @ [l..<l + d]"
    by (rule upt_add_eq_append)
  moreover from assms have "[l..<n] = l # [Suc l..<n]"
    by (simp add: upt_conv_Cons)
  ultimately have "[Suc i..<n] = [Suc i..<l] @ l # [Suc l..<n]"
    unfolding n by simp
  then show ?thesis
    by (auto simp: filter_id_conv filter_empty_conv)
qed

lemma later_index_nth:
  assumes "i < l" and "l < n" and "k < n - i - 2"
  shows "([Suc i..<l] @ [Suc l..<n]) ! k = later_index i l k"
  using assms by (auto simp: nth_append later_index_def)

lemma rebuild_Inr:
  assumes r: "rebuild fused ops i l = Inr new" and il: "i < l" and ln: "l < length ops"
  shows "length new + 1 = length ops \<and>
    (\<exists>rest. new = take i ops @ fused # rest \<and> length rest = length ops - i - 2 \<and>
       (\<forall>k<length rest. rewired_op fused (op_addr (ops ! l)) (op_addr (ops ! i))
          (ops ! later_index i l k) (rest ! k)))"
proof -
  from r obtain rest where
    rest: "for_each (filter (\<lambda>j. j \<noteq> l) [Suc i..<length ops]) (\<lambda>j.
              rewire_op fused (op_addr (ops ! l)) (op_addr (ops ! i)) (ops ! j)) = Inr rest"
    and new: "new = take i ops @ [fused] @ rest"
    and len: "length new + 1 = length ops"
    unfolding rebuild_def Let_def by (auto dest!: ebind_Inr assert_that_Inr)
  note f = filter_skip [OF il ln]
  from for_each_Inr [OF rest] have lr: "length rest = length ([Suc i..<l] @ [Suc l..<length ops])"
    and each: "\<forall>k<length ([Suc i..<l] @ [Suc l..<length ops]).
      rewire_op fused (op_addr (ops ! l)) (op_addr (ops ! i))
        (ops ! (([Suc i..<l] @ [Suc l..<length ops]) ! k)) = Inr (rest ! k)"
    unfolding f by simp_all
  from lr il ln have lr': "length rest = length ops - i - 2"
    by simp
  have "rewired_op fused (op_addr (ops ! l)) (op_addr (ops ! i))
          (ops ! later_index i l k) (rest ! k)" if "k < length rest" for k
  proof -
    from that lr have "rewire_op fused (op_addr (ops ! l)) (op_addr (ops ! i))
        (ops ! (([Suc i..<l] @ [Suc l..<length ops]) ! k)) = Inr (rest ! k)"
      using each by simp
    moreover from that lr' have "([Suc i..<l] @ [Suc l..<length ops]) ! k = later_index i l k"
      using later_index_nth [OF il ln] by simp
    ultimately show ?thesis
      by (simp add: rewire_op_Inr)
  qed
  with new lr' len show ?thesis
    by simp
qed

lemma example_later_operator:
  "rewired_op example_fused 12 11 (example_chain ! 3) (example_chain_fused ! 2)"
  by code_simp

text \<open>
  C2: when \<open>apply_fusion\<close> returns \<open>true\<close>, the new vector has one operator fewer. It is the
  operators before \<open>i\<close>, the fused operator that \<open>add_operator\<close> made of the seed \<open>O[i]\<close> and
  of \<open>O[l]\<close>, and the operators after \<open>i\<close> other than \<open>O[l]\<close>, in order. Of such an operator
  only the inputs change: each of its \<open>numInputs\<close> inputs that \<open>O[l]\<close> or \<open>O[i]\<close> owns is the
  one output of the fused operator with the same region, and the other inputs are as before.
\<close>

theorem apply_fusion_rebuild:
  assumes "apply_fusion F ops = Inr (Some new)"
  shows "length new + 1 = length ops \<and>
    (\<exists>i l fused_op fused rest. i < l \<and> l < length ops - 1 \<and>
       fusion_seed F (ops ! i) = Some fused_op \<and>
       add_operator F fused_op (ops ! l) = Some fused \<and>
       new = take i ops @ fused # rest \<and> length rest = length ops - i - 2 \<and>
       (\<forall>k<length rest. rewired_op fused (op_addr (ops ! l)) (op_addr (ops ! i))
          (ops ! later_index i l k) (rest ! k)))"
proof -
  from apply_fusion_Some [OF assms] obtain i l fused_op fused where
    b: "i < l" "l < length ops - 1"
    and s: "fusion_seed F (ops ! i) = Some fused_op"
    and a: "add_operator F fused_op (ops ! l) = Some fused"
    and r: "rebuild fused ops i l = Inr new"
    by blast
  from b have ln: "l < length ops"
    by simp
  from rebuild_Inr [OF r b(1) ln] obtain rest where len: "length new + 1 = length ops"
    and n: "new = take i ops @ fused # rest" "length rest = length ops - i - 2"
    and w: "\<forall>k<length rest. rewired_op fused (op_addr (ops ! l)) (op_addr (ops ! i))
          (ops ! later_index i l k) (rest ! k)"
    by blast
  have "\<exists>i l fused_op fused rest. i < l \<and> l < length ops - 1 \<and>
       fusion_seed F (ops ! i) = Some fused_op \<and>
       add_operator F fused_op (ops ! l) = Some fused \<and>
       new = take i ops @ fused # rest \<and> length rest = length ops - i - 2 \<and>
       (\<forall>k<length rest. rewired_op fused (op_addr (ops ! l)) (op_addr (ops ! i))
          (ops ! later_index i l k) (rest ! k))"
    apply (rule exI [of _ i])
    apply (rule exI [of _ l])
    apply (rule exI [of _ fused_op])
    apply (rule exI [of _ fused])
    apply (rule exI [of _ rest])
    apply (intro conjI)
    apply (rule b s a n w)+
    done
  with len show ?thesis
    by (rule conjI)
qed

theorem apply_fusion_rebuild_witness:
  "apply_fusion example_fusion example_chain = Inr (Some example_chain_fused) \<and>
   length example_chain_fused + 1 = length example_chain \<and>
   rewired_op example_fused 12 11 (example_chain ! 3) (example_chain_fused ! 2) \<and>
   (\<exists>i l fused_op fused rest. i < l \<and> l < length example_chain - 1 \<and>
       fusion_seed example_fusion (example_chain ! i) = Some fused_op \<and>
       add_operator example_fusion fused_op (example_chain ! l) = Some fused \<and>
       example_chain_fused = take i example_chain @ fused # rest \<and>
       length rest = length example_chain - i - 2 \<and>
       (\<forall>k<length rest. rewired_op fused (op_addr (example_chain ! l))
          (op_addr (example_chain ! i)) (example_chain ! later_index i l k) (rest ! k)))"
proof -
  note t = apply_fusion_rebuild [OF example_chain_fusion]
  show ?thesis
    apply (intro conjI)
    apply (rule example_chain_fusion)
    apply (rule t [THEN conjunct1])
    apply (rule example_later_operator)
    apply (rule t [THEN conjunct2])
    done
qed
section \<open>The adjacency multi-digraph\<close>

text \<open>
  \<open>adjacency\<close> is a hash map from source node to a hash map from destination node to a hash
  map from source index to a hash set of destination indices. Each container is the list of
  its entries, in the order in which the C++ iterates over it; a well-formed hash map holds a
  key once. \<open>size_t\<close> values are naturals; the only arithmetic on them, \<open>next_node_idx++\<close>,
  is written with its wrap-around.
\<close>

datatype Node = Node (idx: nat)

record Edge =
  src :: Node
  dst :: Node
  srcIdx :: nat
  dstIdx :: nat

record EdgeQuery =
  srcs :: "Node set option"
  dsts :: "Node set option"
  srcIdxs :: "nat set option"
  dstIdxs :: "nat set option"

type_synonym ('k, 'v) unordered_map = "('k \<times> 'v) list"

type_synonym 'a unordered_set = "'a list"

type_synonym adjacency_t =
  "(Node, (Node, (nat, nat unordered_set) unordered_map) unordered_map) unordered_map"

record AdjacencyMultiDiGraph =
  next_node_idx :: nat
  adjacency :: adjacency_t

text \<open>\<open>!filt.has_value() || filt->find(x) != filt->end()\<close>\<close>

definition passes :: "'a set option \<Rightarrow> 'a \<Rightarrow> bool" where
  "passes filt x = (filt = None \<or> x \<in> the filt)"

definition query_edges :: "AdjacencyMultiDiGraph \<Rightarrow> EdgeQuery \<Rightarrow> Edge set" where
  "query_edges g q =
     fold (\<lambda>(src, kv_second) result.
       if passes (srcs q) src then
         fold (\<lambda>(dst, kv2_second) result.
           if passes (dsts q) dst then
             fold (\<lambda>(srcIdx, kv3_second) result.
               if passes (srcIdxs q) srcIdx then
                 fold (\<lambda>dstIdx result.
                   if passes (dstIdxs q) dstIdx then
                     insert \<lparr>src = src, dst = dst, srcIdx = srcIdx, dstIdx = dstIdx\<rparr> result
                   else result) kv3_second result
               else result) kv2_second result
           else result) kv_second result
       else result) (adjacency g) {}"

text \<open>\<open>m.at(k)\<close> throws \<open>std::out_of_range\<close> when the key is absent.\<close>

definition at_key :: "('k, 'v) unordered_map \<Rightarrow> 'k \<Rightarrow> error + 'v" where
  "at_key m k = (case map_of m k of None \<Rightarrow> Inl OutOfRange | Some v \<Rightarrow> Inr v)"

text \<open>Storing \<open>v\<close> under \<open>k\<close>: the entry is replaced in place, or added.\<close>

definition put_key :: "('k, 'v) unordered_map \<Rightarrow> 'k \<Rightarrow> 'v \<Rightarrow> ('k, 'v) unordered_map" where
  "put_key m k v =
     (if k \<in> fst ` set m then map (\<lambda>(k', v'). if k' = k then (k', v) else (k', v')) m
      else m @ [(k, v)])"

definition set_insert :: "'a unordered_set \<Rightarrow> 'a \<Rightarrow> 'a unordered_set" where
  "set_insert s x = (if x \<in> set s then s else s @ [x])"

text \<open>
  \<open>adjacency.at(e.src).at(e.dst)[e.srcIdx].insert(e.dstIdx)\<close>: both \<open>at\<close> calls throw on a
  missing key, \<open>operator[]\<close> creates an empty set for a missing source index.
\<close>

definition add_edge :: "AdjacencyMultiDiGraph \<Rightarrow> Edge \<Rightarrow> error + AdjacencyMultiDiGraph" where
  "add_edge g e =
     (case at_key (adjacency g) (src e) of
        Inl err \<Rightarrow> Inl err
      | Inr m2 \<Rightarrow>
          (case at_key m2 (dst e) of
             Inl err \<Rightarrow> Inl err
           | Inr m3 \<Rightarrow>
               let s = (case map_of m3 (srcIdx e) of None \<Rightarrow> [] | Some s \<Rightarrow> s);
                   m3' = put_key m3 (srcIdx e) (set_insert s (dstIdx e));
                   m2' = put_key m2 (dst e) m3'
               in Inr (g\<lparr>adjacency := put_key (adjacency g) (src e) m2'\<rparr>)))"

text \<open>\<open>adjacency[node]\<close> creates an empty inner map for a node that has none.\<close>

definition add_node :: "AdjacencyMultiDiGraph \<Rightarrow> Node \<times> AdjacencyMultiDiGraph" where
  "add_node g =
     (let node = Node (next_node_idx g);
          adj = (if node \<in> fst ` set (adjacency g) then adjacency g
                 else adjacency g @ [(node, [])])
      in (node, g\<lparr>adjacency := adj, next_node_idx := (next_node_idx g + 1) mod 2 ^ 64\<rparr>))"

definition distinct_keys :: "('k, 'v) unordered_map \<Rightarrow> bool" where
  "distinct_keys m = distinct (map fst m)"

definition wf_adjacency :: "adjacency_t \<Rightarrow> bool" where
  "wf_adjacency adj =
     (distinct_keys adj \<and>
      (\<forall>m2 \<in> snd ` set adj. distinct_keys m2 \<and> (\<forall>m3 \<in> snd ` set m2. distinct_keys m3)))"

text \<open>
  The edge \<open>e\<close> is stored when looking up its source, its destination and its source index,
  in this order, ends in a set that holds its destination index: the path \<open>add_edge\<close> writes.
\<close>

definition stored :: "adjacency_t \<Rightarrow> Edge \<Rightarrow> bool" where
  "stored adj e =
     (case map_of adj (src e) of
        None \<Rightarrow> False
      | Some m2 \<Rightarrow>
          (case map_of m2 (dst e) of
             None \<Rightarrow> False
           | Some m3 \<Rightarrow>
               (case map_of m3 (srcIdx e) of
                  None \<Rightarrow> False
                | Some s \<Rightarrow> dstIdx e \<in> set s)))"

definition selected :: "EdgeQuery \<Rightarrow> Edge \<Rightarrow> bool" where
  "selected q e =
     (passes (srcs q) (src e) \<and> passes (dsts q) (dst e) \<and>
      passes (srcIdxs q) (srcIdx e) \<and> passes (dstIdxs q) (dstIdx e))"

definition g_example :: AdjacencyMultiDiGraph where
  "g_example = \<lparr>next_node_idx = 2,
     adjacency = [(Node 0, [(Node 1, [(0, [0, 1]), (1, [0])])]), (Node 1, [])]\<rparr>"

definition q_example :: EdgeQuery where
  "q_example = \<lparr>srcs = Some {Node 0}, dsts = None, srcIdxs = Some {0}, dstIdxs = None\<rparr>"

definition q_all :: EdgeQuery where
  "q_all = \<lparr>srcs = None, dsts = None, srcIdxs = None, dstIdxs = None\<rparr>"

text \<open>The four nested loops, innermost first: each adds the edges it visits to the result.\<close>

lemma query_level4:
  "fold (\<lambda>dstIdx result. if passes f4 dstIdx then insert (mk dstIdx) result else result) s acc
   = acc \<union> {mk d | d. d \<in> set s \<and> passes f4 d}"
  by (induction s arbitrary: acc) auto

lemma query_level3:
  "fold (\<lambda>(srcIdx, s) result.
      if passes f3 srcIdx then
        fold (\<lambda>dstIdx result.
          if passes f4 dstIdx then insert (mk srcIdx dstIdx) result else result) s result
      else result) m3 acc
   = acc \<union> {mk a d | a d s. (a, s) \<in> set m3 \<and> d \<in> set s \<and> passes f3 a \<and> passes f4 d}"
proof (induction m3 arbitrary: acc)
  case Nil
  then show ?case by simp
next
  case (Cons p m3)
  obtain a s where p: "p = (a, s)" by (cases p)
  show ?case
    unfolding p by (simp add: Cons.IH query_level4) blast
qed

lemma query_level2:
  "fold (\<lambda>(dst, m3) result.
      if passes f2 dst then
        fold (\<lambda>(srcIdx, s) result.
          if passes f3 srcIdx then
            fold (\<lambda>dstIdx result.
              if passes f4 dstIdx then insert (mk dst srcIdx dstIdx) result else result) s result
          else result) m3 result
      else result) m2 acc
   = acc \<union> {mk b a d | b a d m3 s. (b, m3) \<in> set m2 \<and> (a, s) \<in> set m3 \<and> d \<in> set s \<and>
        passes f2 b \<and> passes f3 a \<and> passes f4 d}"
proof (induction m2 arbitrary: acc)
  case Nil
  then show ?case by simp
next
  case (Cons p m2)
  obtain b m3 where p: "p = (b, m3)" by (cases p)
  show ?case
    unfolding p by (simp add: Cons.IH query_level3) blast
qed

lemma query_level1:
  "fold (\<lambda>(src, m2) result.
      if passes f1 src then
        fold (\<lambda>(dst, m3) result.
          if passes f2 dst then
            fold (\<lambda>(srcIdx, s) result.
              if passes f3 srcIdx then
                fold (\<lambda>dstIdx result.
                  if passes f4 dstIdx then insert (mk src dst srcIdx dstIdx) result
                  else result) s result
              else result) m3 result
          else result) m2 result
      else result) adj acc
   = acc \<union> {mk c b a d | c b a d m2 m3 s.
        (c, m2) \<in> set adj \<and> (b, m3) \<in> set m2 \<and> (a, s) \<in> set m3 \<and> d \<in> set s \<and>
        passes f1 c \<and> passes f2 b \<and> passes f3 a \<and> passes f4 d}"
proof (induction adj arbitrary: acc)
  case Nil
  then show ?case by simp
next
  case (Cons p adj)
  obtain c m2 where p: "p = (c, m2)" by (cases p)
  show ?case
    unfolding p by (simp add: Cons.IH query_level2) blast
qed

text \<open>In a well-formed structure the entries that the loops visit are the ones lookup finds.\<close>

lemma stored_iff:
  assumes "wf_adjacency adj"
  shows "stored adj e \<longleftrightarrow>
    (\<exists>m2 m3 s. (src e, m2) \<in> set adj \<and> (dst e, m3) \<in> set m2 \<and> (srcIdx e, s) \<in> set m3 \<and>
       dstIdx e \<in> set s)"
proof -
  have d1: "distinct (map fst adj)"
    using assms by (simp add: wf_adjacency_def distinct_keys_def)
  have d2: "\<And>c m2. (c, m2) \<in> set adj \<Longrightarrow> distinct (map fst m2)"
    using assms by (force simp: wf_adjacency_def distinct_keys_def)
  have d3: "\<And>c m2 b m3. (c, m2) \<in> set adj \<Longrightarrow> (b, m3) \<in> set m2 \<Longrightarrow> distinct (map fst m3)"
    using assms by (force simp: wf_adjacency_def distinct_keys_def)
  show ?thesis
  proof
    assume "stored adj e"
    then obtain m2 m3 s where
      "map_of adj (src e) = Some m2" "map_of m2 (dst e) = Some m3"
      "map_of m3 (srcIdx e) = Some s" "dstIdx e \<in> set s"
      by (auto simp: stored_def split: option.splits)
    then show "\<exists>m2 m3 s. (src e, m2) \<in> set adj \<and> (dst e, m3) \<in> set m2 \<and>
        (srcIdx e, s) \<in> set m3 \<and> dstIdx e \<in> set s"
      by (blast dest: map_of_SomeD)
  next
    assume "\<exists>m2 m3 s. (src e, m2) \<in> set adj \<and> (dst e, m3) \<in> set m2 \<and>
        (srcIdx e, s) \<in> set m3 \<and> dstIdx e \<in> set s"
    then obtain m2 m3 s where m: "(src e, m2) \<in> set adj" "(dst e, m3) \<in> set m2"
        "(srcIdx e, s) \<in> set m3" "dstIdx e \<in> set s"
      by blast
    have "map_of adj (src e) = Some m2"
      using d1 m(1) by simp
    moreover have "map_of m2 (dst e) = Some m3"
      using d2 [OF m(1)] m(2) by simp
    moreover have "map_of m3 (srcIdx e) = Some s"
      using d3 [OF m(1) m(2)] m(3) by simp
    ultimately show "stored adj e"
      using m(4) by (simp add: stored_def)
  qed
qed

text \<open>
  C10: \<open>query_edges\<close> returns exactly the stored edges that pass every filter the query has
  (a filter that has no value lets every edge pass); with all four filters absent it returns
  every stored edge.
\<close>

theorem query_edges_exact:
  assumes "wf_adjacency (adjacency g)"
  shows "query_edges g q = {e. stored (adjacency g) e \<and> selected q e} \<and>
    (srcs q = None \<and> dsts q = None \<and> srcIdxs q = None \<and> dstIdxs q = None \<longrightarrow>
       query_edges g q = {e. stored (adjacency g) e})"
proof -
  have q: "query_edges g q =
      {\<lparr>src = c, dst = b, srcIdx = a, dstIdx = d\<rparr> | c b a d m2 m3 s.
        (c, m2) \<in> set (adjacency g) \<and> (b, m3) \<in> set m2 \<and> (a, s) \<in> set m3 \<and> d \<in> set s \<and>
        passes (srcs q) c \<and> passes (dsts q) b \<and> passes (srcIdxs q) a \<and> passes (dstIdxs q) d}"
    unfolding query_edges_def
    by (simp add: query_level1
        [where mk = "\<lambda>c b a d. \<lparr>src = c, dst = b, srcIdx = a, dstIdx = d\<rparr>"])
  have main: "query_edges g q = {e. stored (adjacency g) e \<and> selected q e}"
  proof (rule set_eqI)
    fix e :: Edge
    have e: "e = \<lparr>src = src e, dst = dst e, srcIdx = srcIdx e, dstIdx = dstIdx e\<rparr>"
      by simp
    show "e \<in> query_edges g q \<longleftrightarrow> e \<in> {e. stored (adjacency g) e \<and> selected q e}"
      unfolding q stored_iff [OF assms] selected_def
      by (subst (1) e) auto
  qed
  have "query_edges g q = {e. stored (adjacency g) e}"
    if "srcs q = None \<and> dsts q = None \<and> srcIdxs q = None \<and> dstIdxs q = None"
    using that unfolding main by (simp add: selected_def passes_def)
  with main show ?thesis by blast
qed

theorem query_edges_exact_witness:
  "wf_adjacency (adjacency g_example) \<and>
   query_edges g_example q_example =
     {e. stored (adjacency g_example) e \<and> selected q_example e} \<and>
   query_edges g_example q_example =
     {\<lparr>src = Node 0, dst = Node 1, srcIdx = 0, dstIdx = 0\<rparr>,
      \<lparr>src = Node 0, dst = Node 1, srcIdx = 0, dstIdx = 1\<rparr>} \<and>
   query_edges g_example q_all = {e. stored (adjacency g_example) e}"
proof -
  have wf: "wf_adjacency (adjacency g_example)"
    by (simp add: g_example_def wf_adjacency_def distinct_keys_def)
  have v: "query_edges g_example q_example =
     {\<lparr>src = Node 0, dst = Node 1, srcIdx = 0, dstIdx = 0\<rparr>,
      \<lparr>src = Node 0, dst = Node 1, srcIdx = 0, dstIdx = 1\<rparr>}"
    by (simp add: g_example_def q_example_def query_edges_def passes_def insert_commute)
  have n: "srcs q_all = None \<and> dsts q_all = None \<and> srcIdxs q_all = None \<and> dstIdxs q_all = None"
    by (simp add: q_all_def)
  have r1: "query_edges g_example q_example =
      {e. stored (adjacency g_example) e \<and> selected q_example e}"
    using query_edges_exact [OF wf, of q_example] by (rule conjunct1)
  have r2: "query_edges g_example q_all = {e. stored (adjacency g_example) e}"
    using query_edges_exact [OF wf, of q_all] n by (rule conjunct2 [THEN mp])
  show ?thesis
    by (intro conjI) (rule wf r1 v r2)+
qed

end
